theory Spec2Isabelle
  imports Main "HOL-Library.Word" "HOL-Library.Signed_Division" "HOL-Library.Log_Nat"
begin

unbundle bit_operations_syntax

section \<open>Colour value types of NeoPixelBus\<close>

text \<open>
  The colour structs of \<^verbatim>\<open>src/internal/RgbColor.h\<close> and \<^verbatim>\<open>src/internal/RgbwColor.h\<close>.
  A \<^verbatim>\<open>uint8_t\<close> is an \<open>8 word\<close>, a \<^verbatim>\<open>uint16_t\<close> a \<open>16 word\<close>. C++ promotes both to
  \<^verbatim>\<open>int\<close> before any arithmetic; the promoted value is \<open>uint w\<close>, a HOL \<open>int\<close>, and every
  intermediate value of the functions below lies in \<open>0 .. 65536\<close>, inside any \<^verbatim>\<open>int\<close> of
  32 bits (lemmas \<open>dim_product_range\<close> and \<open>brighten_quotient_range\<close>). Storing an \<^verbatim>\<open>int\<close>
  into an unsigned variable reduces it modulo \<open>2 ^ width\<close>: that is \<open>word_of_int\<close>.
  The division of \<^verbatim>\<open>int\<close> truncates towards zero: \<open>sdiv\<close>.
\<close>

type_synonym u8 = "8 word"
type_synonym u16 = "16 word"

record RgbColor =
  R :: u8
  G :: u8
  B :: u8

record RgbwColor =
  R :: u8
  G :: u8
  B :: u8
  W :: u8

subsection \<open>RgbColor\<close>

text \<open>\<^verbatim>\<open>RgbColor(uint8_t r, uint8_t g, uint8_t b)\<close>\<close>

definition RgbColor_rgb :: "u8 \<Rightarrow> u8 \<Rightarrow> u8 \<Rightarrow> RgbColor" where
  "RgbColor_rgb r g b = \<lparr>RgbColor.R = r, G = g, B = b\<rparr>"

text \<open>\<^verbatim>\<open>RgbColor(uint8_t brightness) : R{brightness}, G{brightness}, B{brightness}\<close>\<close>

definition RgbColor_brightness :: "u8 \<Rightarrow> RgbColor" where
  "RgbColor_brightness brightness =
     \<lparr>RgbColor.R = brightness, G = brightness, B = brightness\<rparr>"

text \<open>\<^verbatim>\<open>return (uint8_t)(((uint16_t)R + (uint16_t)G + (uint16_t)B) / 3);\<close>\<close>

definition RgbColor_CalculateBrightness :: "RgbColor \<Rightarrow> u8" where
  "RgbColor_CalculateBrightness c =
     word_of_int ((uint (ucast (RgbColor.R c) :: u16) + uint (ucast (RgbColor.G c) :: u16)
                   + uint (ucast (RgbColor.B c) :: u16)) sdiv 3)"

text \<open>
  \<^verbatim>\<open>return (static_cast<uint16_t>(value) * (static_cast<uint16_t>(ratio) + 1)) >> 8;\<close>
  The same body serves \<^verbatim>\<open>RgbColor::_elementDim\<close> and \<^verbatim>\<open>RgbwColor::_elementDim\<close>.
\<close>

definition elementDim :: "u8 \<Rightarrow> u8 \<Rightarrow> u8" where
  "elementDim v ratio =
     word_of_int (drop_bit 8 (uint (ucast v :: u16) * (uint (ucast ratio :: u16) + 1)))"

text \<open>
  \<^verbatim>\<open>uint16_t element = ((static_cast<uint16_t>(value) + 1) << 8) / (static_cast<uint16_t>(ratio) + 1);\<close>
  The right-hand side is an \<^verbatim>\<open>int\<close> (\<open>brighten_quotient\<close>); the initialisation stores it
  into the 16-bit \<^verbatim>\<open>element\<close> (\<open>brighten_element\<close>).
\<close>

definition brighten_quotient :: "u8 \<Rightarrow> u8 \<Rightarrow> int" where
  "brighten_quotient v ratio =
     push_bit 8 (uint (ucast v :: u16) + 1) sdiv (uint (ucast ratio :: u16) + 1)"

definition brighten_element :: "u8 \<Rightarrow> u8 \<Rightarrow> u16" where
  "brighten_element v ratio = word_of_int (brighten_quotient v ratio)"

text \<open>
  \<^verbatim>\<open>if (element > 255) { element = 255; } else { element -= 1; } return element;\<close>
  The decrement is stored back into the 16-bit variable, the return narrows it to
  \<^verbatim>\<open>uint8_t\<close>.
\<close>

definition elementBrighten :: "u8 \<Rightarrow> u8 \<Rightarrow> u8" where
  "elementBrighten v ratio =
     (let element = brighten_element v ratio;
          element' = (if 255 < uint element then 255 else word_of_int (uint element - 1) :: u16)
      in ucast element')"

definition RgbColor_Dim :: "RgbColor \<Rightarrow> u8 \<Rightarrow> RgbColor" where
  "RgbColor_Dim c ratio =
     RgbColor_rgb (elementDim (RgbColor.R c) ratio) (elementDim (RgbColor.G c) ratio)
       (elementDim (RgbColor.B c) ratio)"

definition RgbColor_Brighten :: "RgbColor \<Rightarrow> u8 \<Rightarrow> RgbColor" where
  "RgbColor_Brighten c ratio =
     RgbColor_rgb (elementBrighten (RgbColor.R c) ratio) (elementBrighten (RgbColor.G c) ratio)
       (elementBrighten (RgbColor.B c) ratio)"

subsection \<open>RgbwColor\<close>

text \<open>\<^verbatim>\<open>RgbwColor(uint8_t r, uint8_t g, uint8_t b, uint8_t w = 0)\<close>\<close>

definition RgbwColor_rgbw :: "u8 \<Rightarrow> u8 \<Rightarrow> u8 \<Rightarrow> u8 \<Rightarrow> RgbwColor" where
  "RgbwColor_rgbw r g b w = \<lparr>RgbwColor.R = r, G = g, B = b, W = w\<rparr>"

text \<open>\<^verbatim>\<open>RgbwColor(uint8_t brightness) : R{}, G{}, B{}, W{brightness}\<close>\<close>

definition RgbwColor_brightness :: "u8 \<Rightarrow> RgbwColor" where
  "RgbwColor_brightness brightness = \<lparr>RgbwColor.R = 0, G = 0, B = 0, W = brightness\<rparr>"

text \<open>\<^verbatim>\<open>return (R == 0 && B == 0 && G == 0);\<close>\<close>

definition IsColorLess :: "RgbwColor \<Rightarrow> bool" where
  "IsColorLess c \<longleftrightarrow> RgbwColor.R c = 0 \<and> RgbwColor.B c = 0 \<and> RgbwColor.G c = 0"

text \<open>
  \<^verbatim>\<open>uint8_t colorB = (uint8_t)(((uint16_t)R + (uint16_t)G + (uint16_t)B) / 3);\<close>
  \<^verbatim>\<open>if (W > colorB) { return W; } else { return colorB; }\<close>
\<close>

definition RgbwColor_CalculateBrightness :: "RgbwColor \<Rightarrow> u8" where
  "RgbwColor_CalculateBrightness c =
     (let colorB = word_of_int ((uint (ucast (RgbwColor.R c) :: u16)
                     + uint (ucast (RgbwColor.G c) :: u16)
                     + uint (ucast (RgbwColor.B c) :: u16)) sdiv 3) :: u8
      in if uint colorB < uint (W c) then W c else colorB)"

text \<open>
  \<^verbatim>\<open>RgbwColor::Lighten\<close> mutates the receiver; the model returns the updated colour.
  Each comparison \<^verbatim>\<open>X < 255 - delta\<close> is made on the promoted \<^verbatim>\<open>int\<close> values, each
  \<^verbatim>\<open>X += delta\<close> is stored back into the 8-bit field.
\<close>

definition RgbwColor_Lighten :: "RgbwColor \<Rightarrow> u8 \<Rightarrow> RgbwColor" where
  "RgbwColor_Lighten c delta =
     (if IsColorLess c then
        (if uint (W c) < 255 - uint delta then c\<lparr>W := W c + delta\<rparr> else c\<lparr>W := 255\<rparr>)
      else
        (let c1 = (if uint (RgbwColor.R c) < 255 - uint delta
                   then c\<lparr>RgbwColor.R := RgbwColor.R c + delta\<rparr>
                   else c\<lparr>RgbwColor.R := 255\<rparr>);
             c2 = (if uint (RgbwColor.G c1) < 255 - uint delta
                   then c1\<lparr>RgbwColor.G := RgbwColor.G c1 + delta\<rparr>
                   else c1\<lparr>RgbwColor.G := 255\<rparr>);
             c3 = (if uint (RgbwColor.B c2) < 255 - uint delta
                   then c2\<lparr>RgbwColor.B := RgbwColor.B c2 + delta\<rparr>
                   else c2\<lparr>RgbwColor.B := 255\<rparr>)
         in c3))"

section \<open>Single-precision arithmetic\<close>

text \<open>
  A C++ \<^verbatim>\<open>float\<close> is an IEEE 754 binary32 value. \<open>Finite s m e\<close> is the number
  \<open>(if s then - m else m) * 2 ^ e\<close> (the sign is kept apart, so there are two zeros);
  a binary32 value has \<open>0 \<le> m < 2 ^ 24\<close>, \<open>- 149 \<le> e \<le> 104\<close>, and \<open>2 ^ 23 \<le> m\<close> unless
  \<open>e = - 149\<close> (\<open>valid_float\<close>). Every operation computes the exact result and rounds it
  once, to nearest, ties to even (the default rounding mode), as a C++ implementation
  that evaluates \<^verbatim>\<open>float\<close> expressions in \<^verbatim>\<open>float\<close> does. NaN payloads are not modelled.
\<close>

datatype float = Finite bool int int | Infinity bool | NaN

definition valid_float :: "float \<Rightarrow> bool" where
  "valid_float x =
     (case x of
        Finite s m e \<Rightarrow>
          0 \<le> m \<and> m < 2 ^ 24 \<and> - 149 \<le> e \<and> e \<le> 104 \<and> (2 ^ 23 \<le> m \<or> e = - 149)
      | Infinity s \<Rightarrow> True
      | NaN \<Rightarrow> True)"

text \<open>
  The exponent of the last kept bit when \<open>m * 2 ^ e\<close> is rounded to 24 significant bits;
  it never goes below \<open>- 149\<close>, where the subnormal numbers begin.
\<close>

definition round_exponent :: "int \<Rightarrow> int \<Rightarrow> int" where
  "round_exponent m e = max (- 149) (e + bitlen m - 24)"

text \<open>
  \<open>round_dyadic s m e\<close> rounds \<open>m * 2 ^ e\<close> (\<open>0 \<le> m\<close>) with sign \<open>s\<close>: exactly when no bit
  is lost, otherwise to the nearer neighbour, to the even one at a tie; a mantissa that
  rounds up to \<open>2 ^ 24\<close> moves to the next exponent; beyond the largest finite value
  the result is an infinity.
\<close>

definition round_dyadic :: "bool \<Rightarrow> int \<Rightarrow> int \<Rightarrow> float" where
  "round_dyadic s m e =
     (if m = 0 then Finite s 0 (- 149)
      else
        let e' = round_exponent m e in
        if e' \<le> e then
          (if 104 < e' then Infinity s else Finite s (m * 2 ^ nat (e - e')) e')
        else
          let sh = nat (e' - e);
              q = m div 2 ^ sh;
              r = m mod 2 ^ sh;
              q' = (if 2 ^ (sh - 1) < r \<or> (r = 2 ^ (sh - 1) \<and> odd q) then q + 1 else q);
              e'' = (if q' = 2 ^ 24 then e' + 1 else e');
              m'' = (if q' = 2 ^ 24 then 2 ^ 23 else q')
          in if 104 < e'' then Infinity s else Finite s m'' e'')"

text \<open>Conversion of an integer to \<^verbatim>\<open>float\<close>; the literals of the source are such values.\<close>

definition float_of_int :: "int \<Rightarrow> float" where
  "float_of_int k = round_dyadic (k < 0) \<bar>k\<bar> 0"

text \<open>The value of a finite float in units of \<open>2 ^ - 149\<close>, an integer for a valid float.\<close>

definition float_units :: "bool \<Rightarrow> int \<Rightarrow> int \<Rightarrow> int" where
  "float_units s m e = (if s then - m else m) * 2 ^ nat (e + 149)"

fun fneg :: "float \<Rightarrow> float" where
  "fneg (Finite s m e) = Finite (\<not> s) m e"
| "fneg (Infinity s) = Infinity (\<not> s)"
| "fneg NaN = NaN"

text \<open>\<^verbatim>\<open>std::abs(float)\<close>\<close>

fun fabs :: "float \<Rightarrow> float" where
  "fabs (Finite s m e) = Finite False m e"
| "fabs (Infinity s) = Infinity False"
| "fabs NaN = NaN"

text \<open>An exact zero sum is \<open>- 0\<close> only when both operands are negative (both \<open>- 0\<close>).\<close>

fun fadd :: "float \<Rightarrow> float \<Rightarrow> float" where
  "fadd (Finite s m e) (Finite t n f) =
     (let u = float_units s m e + float_units t n f
      in if u = 0 then Finite (s \<and> t) 0 (- 149) else round_dyadic (u < 0) \<bar>u\<bar> (- 149))"
| "fadd (Finite s m e) (Infinity t) = Infinity t"
| "fadd (Infinity s) (Finite t n f) = Infinity s"
| "fadd (Infinity s) (Infinity t) = (if s = t then Infinity s else NaN)"
| "fadd NaN y = NaN"
| "fadd x NaN = NaN"

definition fsub :: "float \<Rightarrow> float \<Rightarrow> float" where
  "fsub x y = fadd x (fneg y)"

fun fmul :: "float \<Rightarrow> float \<Rightarrow> float" where
  "fmul (Finite s m e) (Finite t n f) = round_dyadic (s \<noteq> t) (m * n) (e + f)"
| "fmul (Finite s m e) (Infinity t) = (if m = 0 then NaN else Infinity (s \<noteq> t))"
| "fmul (Infinity s) (Finite t n f) = (if n = 0 then NaN else Infinity (s \<noteq> t))"
| "fmul (Infinity s) (Infinity t) = Infinity (s \<noteq> t)"
| "fmul NaN y = NaN"
| "fmul x NaN = NaN"

text \<open>
  The quotient is computed to at least 25 bits, with one more bit below them that is set
  when the division leaves a remainder; rounding that value rounds the exact quotient.
\<close>

fun fdiv :: "float \<Rightarrow> float \<Rightarrow> float" where
  "fdiv (Finite s m e) (Finite t n f) =
     (if n = 0 then (if m = 0 then NaN else Infinity (s \<noteq> t))
      else
        let k = nat (bitlen n) + 24;
            q = (m * 2 ^ k) div n;
            r = (m * 2 ^ k) mod n
        in round_dyadic (s \<noteq> t) (2 * q + (if r = 0 then 0 else 1)) (e - f - int k - 1))"
| "fdiv (Finite s m e) (Infinity t) = Finite (s \<noteq> t) 0 (- 149)"
| "fdiv (Infinity s) (Finite t n f) = Infinity (s \<noteq> t)"
| "fdiv (Infinity s) (Infinity t) = NaN"
| "fdiv NaN y = NaN"
| "fdiv x NaN = NaN"

text \<open>The comparisons \<^verbatim>\<open><\<close>, \<^verbatim>\<open>==\<close>, \<^verbatim>\<open><=\<close>, \<^verbatim>\<open>>\<close>, \<^verbatim>\<open>>=\<close>; each is false on a NaN.\<close>

fun flt :: "float \<Rightarrow> float \<Rightarrow> bool" where
  "flt (Finite s m e) (Finite t n f) \<longleftrightarrow> float_units s m e < float_units t n f"
| "flt (Finite s m e) (Infinity t) \<longleftrightarrow> \<not> t"
| "flt (Infinity s) (Finite t n f) \<longleftrightarrow> s"
| "flt (Infinity s) (Infinity t) \<longleftrightarrow> s \<and> \<not> t"
| "flt NaN y \<longleftrightarrow> False"
| "flt x NaN \<longleftrightarrow> False"

fun feq :: "float \<Rightarrow> float \<Rightarrow> bool" where
  "feq (Finite s m e) (Finite t n f) \<longleftrightarrow> float_units s m e = float_units t n f"
| "feq (Finite s m e) (Infinity t) \<longleftrightarrow> False"
| "feq (Infinity s) (Finite t n f) \<longleftrightarrow> False"
| "feq (Infinity s) (Infinity t) \<longleftrightarrow> s = t"
| "feq NaN y \<longleftrightarrow> False"
| "feq x NaN \<longleftrightarrow> False"

definition fle :: "float \<Rightarrow> float \<Rightarrow> bool" where
  "fle x y \<longleftrightarrow> flt x y \<or> feq x y"

definition fgt :: "float \<Rightarrow> float \<Rightarrow> bool" where
  "fgt x y \<longleftrightarrow> flt y x"

definition fge :: "float \<Rightarrow> float \<Rightarrow> bool" where
  "fge x y \<longleftrightarrow> fle y x"

text \<open>
  Conversion of a \<^verbatim>\<open>float\<close> to an integer type truncates towards zero. C++ leaves the
  conversion undefined when the truncated value does not fit the destination type (and
  for an infinity or a NaN): the result is then \<open>None\<close>.
\<close>

fun float_trunc :: "float \<Rightarrow> int option" where
  "float_trunc (Finite s m e) =
     (let a = (if 0 \<le> e then m * 2 ^ nat e else m div 2 ^ nat (- e))
      in Some (if s then - a else a))"
| "float_trunc (Infinity s) = None"
| "float_trunc NaN = None"

definition float_to_int :: "float \<Rightarrow> int option" where
  "float_to_int x =
     (case float_trunc x of
        None \<Rightarrow> None
      | Some k \<Rightarrow> if - (2 ^ 31) \<le> k \<and> k < 2 ^ 31 then Some k else None)"

definition float_to_u8 :: "float \<Rightarrow> u8 option" where
  "float_to_u8 x =
     (case float_trunc x of
        None \<Rightarrow> None
      | Some k \<Rightarrow> if 0 \<le> k \<and> k \<le> 255 then Some (word_of_int k) else None)"

text \<open>\<^verbatim>\<open>std::min(a, b)\<close> returns \<open>b\<close> when \<open>b < a\<close> and \<open>a\<close> otherwise.\<close>

definition std_min :: "float \<Rightarrow> float \<Rightarrow> float" where
  "std_min a b = (if flt b a then b else a)"

section \<open>Conversions and blending\<close>

record HslColor =
  H :: float
  S :: float
  L :: float

record HsbColor =
  H :: float
  S :: float
  B :: float

text \<open>
  \<^verbatim>\<open>RgbColor(uint8_t r, uint8_t g, uint8_t b)\<close> called with three \<^verbatim>\<open>float\<close> arguments, and
  the assignments of a \<^verbatim>\<open>float\<close> to the three \<^verbatim>\<open>uint8_t\<close> fields: each value is converted
  to \<^verbatim>\<open>uint8_t\<close>.
\<close>

definition RgbColor_of_floats :: "float \<Rightarrow> float \<Rightarrow> float \<Rightarrow> RgbColor option" where
  "RgbColor_of_floats r g b =
     (case float_to_u8 r of None \<Rightarrow> None | Some r' \<Rightarrow>
       (case float_to_u8 g of None \<Rightarrow> None | Some g' \<Rightarrow>
         (case float_to_u8 b of None \<Rightarrow> None | Some b' \<Rightarrow> Some (RgbColor_rgb r' g' b'))))"

text \<open>
  \<^verbatim>\<open>return RgbColor( left.R + ((right.R - left.R) * progress), ... );\<close>
  The difference of the two channels is an \<^verbatim>\<open>int\<close>, converted to \<^verbatim>\<open>float\<close> for the product;
  so is \<^verbatim>\<open>left.R\<close> for the sum.
\<close>

definition RgbColor_LinearBlend :: "RgbColor \<Rightarrow> RgbColor \<Rightarrow> float \<Rightarrow> RgbColor option" where
  "RgbColor_LinearBlend left right progress =
     RgbColor_of_floats
       (fadd (float_of_int (uint (RgbColor.R left)))
          (fmul (float_of_int (uint (RgbColor.R right) - uint (RgbColor.R left))) progress))
       (fadd (float_of_int (uint (RgbColor.G left)))
          (fmul (float_of_int (uint (RgbColor.G right) - uint (RgbColor.G left))) progress))
       (fadd (float_of_int (uint (RgbColor.B left)))
          (fmul (float_of_int (uint (RgbColor.B right) - uint (RgbColor.B left))) progress))"

text \<open>
  \<^verbatim>\<open>return (std::abs(p1 - p2) * 100000.f <= std::min(std::abs(p1), std::abs(p2)));\<close>
\<close>

definition fuzzyCompare :: "float \<Rightarrow> float \<Rightarrow> bool" where
  "fuzzyCompare p1 p2 \<longleftrightarrow>
     fle (fmul (fabs (fsub p1 p2)) (float_of_int 100000)) (std_min (fabs p1) (fabs p2))"

text \<open>
  The hue correction of \<^verbatim>\<open>RgbColor::convertToRgbColor(HsbColor)\<close>:
  \<^verbatim>\<open>if (color.H < 0.0f) color.H += 1.0f; else if (color.H >= 1.0f) color.H -= 1.0f;\<close>
\<close>

definition hsb_hue_correction :: "float \<Rightarrow> float" where
  "hsb_hue_correction h =
     (if flt h (float_of_int 0) then fadd h (float_of_int 1)
      else if fge h (float_of_int 1) then fsub h (float_of_int 1)
      else h)"

text \<open>
  \<^verbatim>\<open>RgbColor::convertToRgbColor(HsbColor color)\<close> after its achromatic return: the
  corrected hue is multiplied by 6 (\<open>h\<close>), \<^verbatim>\<open>int i = (int)color.H\<close>,
  \<^verbatim>\<open>float f = color.H - i\<close>, and the \<^verbatim>\<open>switch (i)\<close> has the cases 0 to 4 and a default.
\<close>

definition hsb_sector_color :: "HsbColor \<Rightarrow> RgbColor option" where
  "hsb_sector_color color =
     (let h = fmul (hsb_hue_correction (HsbColor.H color)) (float_of_int 6) in
      case float_to_int h of
        None \<Rightarrow> None
      | Some i \<Rightarrow>
          let f = fsub h (float_of_int i);
              q = fmul (HsbColor.B color) (fsub (float_of_int 1) (fmul (HsbColor.S color) f));
              p = fmul (HsbColor.B color) (fsub (float_of_int 1) (HsbColor.S color));
              t = fmul (HsbColor.B color)
                    (fsub (float_of_int 1) (fmul (HsbColor.S color) (fsub (float_of_int 1) f)))
          in if i = 0 then RgbColor_of_floats (HsbColor.B color) t p
             else if i = 1 then RgbColor_of_floats q (HsbColor.B color) p
             else if i = 2 then RgbColor_of_floats p (HsbColor.B color) t
             else if i = 3 then RgbColor_of_floats p q (HsbColor.B color)
             else if i = 4 then RgbColor_of_floats t p (HsbColor.B color)
             else RgbColor_of_floats (HsbColor.B color) p q)"

text \<open>
  \<^verbatim>\<open>RgbColor::convertToRgbColor(HsbColor color)\<close>:
  \<^verbatim>\<open>if (fuzzyCompare(color.S, 0.0f)) return RgbColor{uint8_t(color.B), uint8_t(color.B), uint8_t(color.B)};\<close>
  and the sector computation otherwise.
\<close>

definition convertToRgbColor_Hsb :: "HsbColor \<Rightarrow> RgbColor option" where
  "convertToRgbColor_Hsb color =
     (if fuzzyCompare (HsbColor.S color) (float_of_int 0) then
        RgbColor_of_floats (HsbColor.B color) (HsbColor.B color) (HsbColor.B color)
      else hsb_sector_color color)"

text \<open>
  \<^verbatim>\<open>HslColor::convertToHslColor\<close>: \<^verbatim>\<open>float r = color.R / 255.0f;\<close> and likewise \<open>g\<close>, \<open>b\<close>;
  \<^verbatim>\<open>float max = (r > g && r > b) ? r : (g > b) ? g : b;\<close>
  \<^verbatim>\<open>float min = (r < g && r < b) ? r : (g < b) ? g : b;\<close>
\<close>

definition normalized_channel :: "u8 \<Rightarrow> float" where
  "normalized_channel v = fdiv (float_of_int (uint v)) (float_of_int 255)"

definition channel_max :: "float \<Rightarrow> float \<Rightarrow> float \<Rightarrow> float" where
  "channel_max r g b = (if fgt r g \<and> fgt r b then r else if fgt g b then g else b)"

definition channel_min :: "float \<Rightarrow> float \<Rightarrow> float \<Rightarrow> float" where
  "channel_min r g b = (if flt r g \<and> flt r b then r else if flt g b then g else b)"

text \<open>The literal \<^verbatim>\<open>0.5f\<close> is \<open>round_dyadic False 1 (- 1)\<close>.\<close>

definition convertToHslColor :: "RgbColor \<Rightarrow> HslColor" where
  "convertToHslColor color =
     (let r = normalized_channel (RgbColor.R color);
          g = normalized_channel (RgbColor.G color);
          b = normalized_channel (RgbColor.B color);
          mx = channel_max r g b;
          mn = channel_min r g b;
          l = fdiv (fadd mx mn) (float_of_int 2)
      in if feq mx mn then \<lparr>HslColor.H = float_of_int 0, S = float_of_int 0, L = l\<rparr>
         else
           let d = fsub mx mn;
               s = (if fgt l (round_dyadic False 1 (- 1))
                    then fdiv d (fsub (float_of_int 2) (fadd mx mn))
                    else fdiv d (fadd mx mn));
               h = (if fgt r g \<and> fgt r b
                    then fadd (fdiv (fsub g b) d)
                           (if flt g b then float_of_int 6 else float_of_int 0)
                    else if fgt g b then fadd (fdiv (fsub b r) d) (float_of_int 2)
                    else fadd (fdiv (fsub r g) d) (float_of_int 4))
           in \<lparr>HslColor.H = fdiv h (float_of_int 6), S = s, L = l\<rparr>)"

section \<open>The specification's formulas\<close>

text \<open>
  The specification's \<^verbatim>\<open>Brighten\<close> formula on unbounded integers:
  \<open>element = ((value + 1) << 8) / (ratio + 1)\<close>, clamp to 255, otherwise subtract 1.
\<close>

definition brighten_spec :: "int \<Rightarrow> int \<Rightarrow> int" where
  "brighten_spec v ratio =
     (let element = ((v + 1) * 2 ^ 8) div (ratio + 1)
      in if 255 < element then 255 else element - 1)"

text \<open>The specification's saturating addition: the sum, clamped to 255.\<close>

definition saturating_add :: "u8 \<Rightarrow> u8 \<Rightarrow> u8" where
  "saturating_add x d = word_of_int (min 255 (uint x + uint d))"

section \<open>Integer facts\<close>

lemma uint_u8_widen: "uint (ucast (v :: u8) :: u16) = uint v"
  by (simp add: uint_up_ucast is_up)

lemma uint_u8_range: "0 \<le> uint (v :: u8) \<and> uint v \<le> 255"
  using uint_lt2p [of v] by simp

lemma u8_eq_iff: "(v :: u8) = w \<longleftrightarrow> uint v = uint w"
  by (simp add: word_uint_eq_iff)

lemma dim_product_range:
  "0 \<le> uint (v :: u8) * (uint (r :: u8) + 1) \<and> uint v * (uint r + 1) \<le> 65280"
proof -
  have "uint v * (uint r + 1) \<le> 255 * 256"
    using uint_u8_range [of v] uint_u8_range [of r] by (intro mult_mono) auto
  then show ?thesis using uint_u8_range [of v] uint_u8_range [of r] by simp
qed

lemma uint_elementDim: "uint (elementDim v r) = (uint v * (uint r + 1)) div 256"
proof -
  let ?p = "uint v * (uint r + 1)"
  have "0 \<le> ?p" "?p \<le> 65280"
    using dim_product_range [of v r] by blast+
  then have "0 \<le> ?p div 256" "?p div 256 < 256"
    by (simp_all add: pos_imp_zdiv_nonneg_iff)
  then have "uint (word_of_int (?p div 256) :: u8) = ?p div 256"
    by (simp add: uint_word_of_int)
  then show ?thesis
    by (simp add: elementDim_def uint_u8_widen drop_bit_eq_div)
qed

lemma elementDim_full: "elementDim v 255 = v"
proof -
  have "uint (elementDim v 255) = uint v"
    by (simp add: uint_elementDim)
  then show ?thesis by (simp add: u8_eq_iff)
qed

lemma elementDim_zero: "elementDim v 0 = 0"
proof -
  have "uint (elementDim v 0) = 0"
    using uint_u8_range [of v] by (simp add: uint_elementDim)
  then show ?thesis by (simp add: u8_eq_iff)
qed

text \<open>The product of \<open>elementDim\<close> fits a 16-bit unsigned multiply.\<close>

lemma uint_dim16:
  "uint ((ucast (v :: u8) :: u16) * (ucast (r :: u8) + 1)) = uint v * (uint r + 1)"
proof -
  let ?p = "uint v * (uint r + 1)"
  have r1: "uint ((ucast r :: u16) + 1) = uint r + 1"
  proof -
    have "uint ((ucast r :: u16) + 1) = (uint (ucast r :: u16) + uint (1 :: u16)) mod 2 ^ 16"
      using uint_word_ariths(1) [of "ucast r :: u16" 1] by simp
    then show ?thesis using uint_u8_range [of r] by (simp add: uint_u8_widen)
  qed
  have "uint ((ucast v :: u16) * (ucast r + 1))
          = (uint (ucast v :: u16) * uint ((ucast r :: u16) + 1)) mod 65536"
    using uint_word_ariths(3) [of "ucast v :: u16" "ucast r + 1"] by simp
  also have "\<dots> = ?p mod 65536"
    by (simp only: r1 uint_u8_widen)
  also have "\<dots> = ?p"
    using dim_product_range [of v r] by simp
  finally show ?thesis .
qed

lemma uint_drop8_u16: "uint (drop_bit 8 (w :: u16)) = uint w div 256"
  by (simp add: drop_bit_eq_div uint_div_distrib)

lemma uint_narrow_u16: "uint (ucast (w :: u16) :: u8) = uint w mod 256"
  by (simp add: unsigned_ucast_eq take_bit_eq_mod)

lemma elementDim_16bit:
  "(ucast (drop_bit 8 ((ucast v :: u16) * (ucast r + 1))) :: u8) = elementDim v r"
proof -
  let ?p = "uint v * (uint r + 1)"
  have "0 \<le> ?p" "?p \<le> 65280"
    using dim_product_range [of v r] by blast+
  then have "0 \<le> ?p div 256" "?p div 256 < 256"
    by (simp_all add: pos_imp_zdiv_nonneg_iff)
  then have "(?p div 256) mod 256 = ?p div 256"
    by simp
  then show ?thesis
    by (simp add: u8_eq_iff uint_elementDim uint_narrow_u16 uint_drop8_u16 uint_dim16)
qed

text \<open>Truncating division agrees with \<open>div\<close> on a non-negative dividend and a positive divisor.\<close>

lemma sdiv_nonneg: "0 \<le> a \<Longrightarrow> 0 < b \<Longrightarrow> (a :: int) sdiv b = a div b"
  by (simp add: signed_divide_int_def sgn_if)

lemma brighten_quotient_eq:
  "brighten_quotient v r = ((uint v + 1) * 256) div (uint r + 1)"
  using uint_u8_range [of v] uint_u8_range [of r]
  by (simp add: brighten_quotient_def uint_u8_widen push_bit_eq_mult sdiv_nonneg)

lemma brighten_quotient_range:
  "1 \<le> brighten_quotient v r \<and> brighten_quotient v r \<le> 65536"
proof -
  define a where "a = (uint v + 1) * 256"
  define b where "b = uint r + 1"
  have b: "0 < b" "b \<le> 256" using uint_u8_range [of r] by (auto simp: b_def)
  have a: "256 \<le> a" "a \<le> 65536" using uint_u8_range [of v] by (auto simp: a_def)
  have "b \<le> a" using a b by linarith
  then have "0 < a div b"
    using b by (simp add: pos_imp_zdiv_pos_iff)
  then have "1 \<le> a div b" by linarith
  moreover have "a div b \<le> a"
    using a b zdiv_mono2 [of a 1 b] by simp
  ultimately show ?thesis
    using a by (simp add: brighten_quotient_eq a_def b_def)
qed

lemma brighten_quotient_top:
  "brighten_quotient v r = 65536 \<longleftrightarrow> v = 255 \<and> r = 0"
proof
  assume q: "brighten_quotient v r = 65536"
  define a where "a = (uint v + 1) * 256"
  define b where "b = uint r + 1"
  have b: "0 < b" using uint_u8_range [of r] by (auto simp: b_def)
  have "a div b * b \<le> a"
    using b by (metis div_mult_mod_eq le_add_same_cancel1 pos_mod_sign)
  moreover have "a div b = 65536"
    using q by (simp add: brighten_quotient_eq a_def b_def)
  ultimately have "65536 * b \<le> a" by simp
  moreover have "a \<le> 65536" "0 \<le> uint r"
    using uint_u8_range [of v] uint_u8_range [of r] by (simp_all add: a_def)
  ultimately have "b = 1" "a = 65536"
    using b by linarith+
  then have "uint r = 0 \<and> uint v = 255"
    by (simp add: a_def b_def)
  then show "v = 255 \<and> r = 0" by (simp add: u8_eq_iff)
next
  assume "v = 255 \<and> r = 0"
  then show "brighten_quotient v r = 65536" by (simp add: brighten_quotient_eq)
qed

lemma uint_brighten_element:
  "uint (brighten_element v r) = (if v = 255 \<and> r = 0 then 0 else brighten_quotient v r)"
proof (cases "v = 255 \<and> r = 0")
  case True
  then show ?thesis by (simp add: brighten_element_def brighten_quotient_eq)
next
  case False
  then have "brighten_quotient v r \<noteq> 65536" by (simp add: brighten_quotient_top)
  then have "0 \<le> brighten_quotient v r" "brighten_quotient v r < 65536"
    using brighten_quotient_range [of v r] by auto
  then have "uint (word_of_int (brighten_quotient v r) :: u16) = brighten_quotient v r"
    by (simp add: uint_word_of_int)
  with False show ?thesis
    by (auto simp: brighten_element_def)
qed

lemma narrow_65535: "(ucast (word_of_int (0 - 1) :: u16) :: u8) = 255"
proof -
  have "uint (ucast (word_of_int (0 - 1) :: u16) :: u8) = 255"
    by (simp only: uint_narrow_u16 uint_word_of_int) simp
  then show ?thesis by (simp only: u8_eq_iff) simp
qed

lemma narrow_store: "0 \<le> k \<Longrightarrow> k < 256 \<Longrightarrow> uint (ucast (word_of_int k :: u16) :: u8) = k"
  by (simp add: uint_narrow_u16 uint_word_of_int)

lemma uint_elementBrighten:
  "uint (elementBrighten v r)
     = (if 255 < brighten_quotient v r then 255 else brighten_quotient v r - 1)"
proof (cases "v = 255 \<and> r = 0")
  case True
  then have e: "uint (brighten_element v r) = 0" "brighten_quotient v r = 65536"
    by (simp_all add: uint_brighten_element brighten_quotient_top)
  have "elementBrighten v r = 255"
    unfolding elementBrighten_def Let_def e using narrow_65535 by simp
  then show ?thesis using e by simp
next
  case False
  let ?q = "brighten_quotient v r"
  have e: "uint (brighten_element v r) = ?q"
    using False by (auto simp: uint_brighten_element)
  have q: "1 \<le> ?q" using brighten_quotient_range [of v r] by simp
  show ?thesis
  proof (cases "255 < ?q")
    case True
    then show ?thesis by (simp add: elementBrighten_def e)
  next
    case False
    then have "0 \<le> ?q - 1" "?q - 1 < 256" using q by auto
    then have "uint (ucast (word_of_int (?q - 1) :: u16) :: u8) = ?q - 1"
      by (rule narrow_store)
    then show ?thesis using False by (simp add: elementBrighten_def e)
  qed
qed

lemma brighten_at_top:
  "brighten_quotient 255 0 = 65536 \<and> brighten_element 255 0 = 0 \<and> elementBrighten 255 0 = 255"
proof -
  have q: "brighten_quotient 255 0 = 65536" by (simp add: brighten_quotient_eq)
  have e: "brighten_element 255 0 = 0" by (simp add: brighten_element_def q)
  have "uint (elementBrighten 255 0) = 255" by (simp add: uint_elementBrighten q)
  then have "elementBrighten 255 0 = 255" by (simp add: u8_eq_iff)
  then show ?thesis using q e by simp
qed

lemma channel_sum_range:
  "0 \<le> uint (r :: u8) + uint (g :: u8) + uint (b :: u8) \<and> uint r + uint g + uint b \<le> 765"
  using uint_u8_range [of r] uint_u8_range [of g] uint_u8_range [of b] by simp

lemma uint_average:
  "uint (word_of_int ((uint (ucast (r :: u8) :: u16) + uint (ucast (g :: u8) :: u16)
                       + uint (ucast (b :: u8) :: u16)) sdiv 3) :: u8)
     = (uint r + uint g + uint b) div 3"
proof -
  define t where "t = uint r + uint g + uint b"
  have t: "0 \<le> t" "t \<le> 765"
    using channel_sum_range [of r g b] by (simp_all add: t_def)
  then have "0 \<le> t div 3" "t div 3 < 256" by simp_all
  then have "uint (word_of_int (t div 3) :: u8) = t div 3"
    by (simp add: uint_word_of_int)
  then show ?thesis using t
    by (simp add: uint_u8_widen sdiv_nonneg flip: t_def)
qed

lemma uint_saturating_add:
  "uint (if uint (x :: u8) < 255 - uint (d :: u8) then x + d else 255) = min 255 (uint x + uint d)"
proof (cases "uint x < 255 - uint d")
  case True
  then have "uint x + uint d < 256" by simp
  then have "uint (x + d) = uint x + uint d"
    using uint_u8_range [of x] uint_u8_range [of d] uint_word_ariths(1) [of x d] by simp
  then show ?thesis using True by simp
next
  case False
  then show ?thesis by simp
qed

lemma uint_saturating: "uint (saturating_add x d) = min 255 (uint x + uint d)"
proof -
  have "0 \<le> min 255 (uint x + uint d)" "min 255 (uint x + uint d) < 256"
    using uint_u8_range [of x] uint_u8_range [of d] by auto
  then show ?thesis by (simp add: saturating_add_def uint_word_of_int)
qed

lemma lighten_branch:
  "(if uint (x :: u8) < 255 - uint (d :: u8) then x + d else 255) = saturating_add x d"
  using uint_saturating_add [of x d] by (simp only: u8_eq_iff uint_saturating)

lemma Lighten_saturating:
  "RgbwColor_Lighten c d =
     (if IsColorLess c then c\<lparr>W := saturating_add (W c) d\<rparr>
      else c\<lparr>RgbwColor.R := saturating_add (RgbwColor.R c) d,
             RgbwColor.G := saturating_add (RgbwColor.G c) d,
             RgbwColor.B := saturating_add (RgbwColor.B c) d\<rparr>)"
  by (simp add: RgbwColor_Lighten_def Let_def lighten_branch [symmetric])

lemma saturating_add_examples:
  "saturating_add 10 5 = 15" "saturating_add 0 5 = 5" "saturating_add 250 10 = 255"
  by (simp_all add: saturating_add_def)

section \<open>Facts about the rounding\<close>

lemma round_dyadic_exact_branch:
  assumes "m \<noteq> 0" and "round_exponent m e \<le> e"
  shows "round_dyadic s m e =
           (if 104 < round_exponent m e then Infinity s
            else Finite s (m * 2 ^ nat (e - round_exponent m e)) (round_exponent m e))"
  using assms unfolding round_dyadic_def Let_def round_exponent_def
  by (simp only: if_False if_True)

lemma round_dyadic_round_branch:
  assumes "m \<noteq> 0" and "\<not> round_exponent m e \<le> e"
    and "sh = nat (round_exponent m e - e)"
    and "q = m div 2 ^ sh" and "r = m mod 2 ^ sh"
    and "q' = (if 2 ^ (sh - 1) < r \<or> (r = 2 ^ (sh - 1) \<and> odd q) then q + 1 else q)"
  shows "round_dyadic s m e =
           (if 104 < (if q' = 2 ^ 24 then round_exponent m e + 1 else round_exponent m e)
            then Infinity s
            else Finite s (if q' = 2 ^ 24 then 2 ^ 23 else q')
                   (if q' = 2 ^ 24 then round_exponent m e + 1 else round_exponent m e))"
  using assms(1,2) unfolding round_dyadic_def Let_def round_exponent_def assms(3-6)
  by (simp only: if_False if_True)

lemma bitlen_pos: "0 < m \<Longrightarrow> 1 \<le> bitlen m"
  using bitlen_eq_zero_iff [of m] bitlen_nonneg [of m] by linarith

lemma round_dyadic_positive:
  assumes m: "0 < m" and big: "- 149 < e + bitlen m"
  shows "(\<exists>q e'. round_dyadic s m e = Finite s q e' \<and> 0 < q \<and> - 149 \<le> e')
         \<or> round_dyadic s m e = Infinity s"
proof -
  define n where "n = bitlen m"
  define e' where "e' = round_exponent m e"
  have m0: "m \<noteq> 0" using m by simp
  have n1: "1 \<le> n" using bitlen_pos [OF m] by (simp add: n_def)
  have lo: "2 ^ nat (n - 1) \<le> m"
    using bitlen_bounds [OF m] by (simp add: n_def)
  have e'lo: "- 149 \<le> e'" by (simp add: e'_def round_exponent_def)
  show ?thesis
  proof (cases "e' \<le> e")
    case True
    then have "round_dyadic s m e
        = (if 104 < e' then Infinity s else Finite s (m * 2 ^ nat (e - e')) e')"
      unfolding e'_def by (rule round_dyadic_exact_branch [OF m0])
    moreover have "0 < m * 2 ^ nat (e - e')" using m by simp
    ultimately show ?thesis using e'lo by auto
  next
    case False
    define sh where "sh = nat (e' - e)"
    define q where "q = m div 2 ^ sh"
    define r where "r = m mod 2 ^ sh"
    define q' where "q' = (if 2 ^ (sh - 1) < r \<or> (r = 2 ^ (sh - 1) \<and> odd q) then q + 1 else q)"
    define e'' where "e'' = (if q' = 2 ^ 24 then e' + 1 else e')"
    define m'' where "m'' = (if q' = 2 ^ 24 then 2 ^ 23 else q')"
    have rd: "round_dyadic s m e = (if 104 < e'' then Infinity s else Finite s m'' e'')"
      unfolding e''_def m''_def e'_def
      by (rule round_dyadic_round_branch [OF m0 False [unfolded e'_def] sh_def [unfolded e'_def] q_def r_def q'_def])
    have "e' - e \<le> n - 1"
      using big by (simp add: e'_def round_exponent_def n_def)
    then have "sh \<le> nat (n - 1)" by (simp add: sh_def)
    then have "(2 :: int) ^ sh \<le> 2 ^ nat (n - 1)"
      by (intro power_increasing) simp_all
    then have "2 ^ sh \<le> m" using lo by linarith
    then have "0 < q"
      unfolding q_def by (simp add: pos_imp_zdiv_pos_iff)
    then have "0 < q'" by (simp add: q'_def)
    then have "0 < m''" by (simp add: m''_def)
    moreover have "- 149 \<le> e''" using e'lo by (simp add: e''_def)
    ultimately show ?thesis using rd by auto
  qed
qed


lemma float_zero: "float_of_int 0 = Finite False 0 (- 149)"
  by (simp add: float_of_int_def round_dyadic_def)

lemma float_100000: "float_of_int 100000 = Finite False 12800000 (- 7)"
  by code_simp

lemma float_one: "float_of_int 1 = Finite False 8388608 (- 23)"
  by code_simp

lemma times_100000_positive:
  assumes "0 < q" and "- 149 \<le> e"
  shows "(\<exists>q' e'. fmul (Finite False q e) (float_of_int 100000) = Finite False q' e' \<and> 0 < q')
         \<or> fmul (Finite False q e) (float_of_int 100000) = Infinity False"
proof -
  have "2 ^ 23 \<le> q * 12800000"
    using assms(1) by simp
  then have "24 \<le> bitlen (q * 12800000)"
    by (simp add: bitlen_ge_iff_power)
  then have "- 149 < (e + - 7) + bitlen (q * 12800000)"
    using assms(2) by linarith
  moreover have "0 < q * 12800000" using assms(1) by simp
  ultimately show ?thesis
    using round_dyadic_positive [of "q * 12800000" "e + - 7" False]
    by (auto simp: float_100000)
qed

lemma float_units_positive: "0 < q \<Longrightarrow> 0 < float_units False q e"
  by (simp add: float_units_def zero_less_mult_iff)

lemma float_units_zero: "float_units s 0 e = 0"
  by (simp add: float_units_def)

lemma fle_positive_zero:
  "0 < q \<Longrightarrow> \<not> fle (Finite False q e) (Finite False 0 (- 149))"
  using float_units_positive [of q e] by (simp add: fle_def float_units_zero)

lemma fuzzyCompare_nonzero:
  assumes "0 < m"
  shows "\<not> fuzzyCompare (Finite s m e) (float_of_int 0)"
proof -
  define u where "u = float_units s m e + float_units True 0 (- 149)"
  have u: "u \<noteq> 0" "0 < \<bar>u\<bar>"
    using assms by (simp_all add: u_def float_units_def)
  have d: "fsub (Finite s m e) (float_of_int 0) = round_dyadic (u < 0) \<bar>u\<bar> (- 149)"
    using u by (simp add: fsub_def float_zero Let_def flip: u_def)
  have "- 149 < - 149 + bitlen \<bar>u\<bar>"
    using bitlen_pos [OF u(2)] by simp
  then consider q e1 where "fsub (Finite s m e) (float_of_int 0) = Finite (u < 0) q e1" "0 < q" "- 149 \<le> e1"
    | "fsub (Finite s m e) (float_of_int 0) = Infinity (u < 0)"
    using round_dyadic_positive [OF u(2), of "- 149" "u < 0"] d by auto
  then have "(\<exists>q' e'. fmul (fabs (fsub (Finite s m e) (float_of_int 0))) (float_of_int 100000)
                  = Finite False q' e' \<and> 0 < q')
             \<or> fmul (fabs (fsub (Finite s m e) (float_of_int 0))) (float_of_int 100000)
                  = Infinity False"
  proof cases
    case 1
    then show ?thesis using times_100000_positive [of q e1] by simp
  next
    case 2
    then show ?thesis by (simp add: float_100000)
  qed
  moreover have "std_min (fabs (Finite s m e)) (fabs (float_of_int 0)) = Finite False 0 (- 149)"
    using assms by (simp add: std_min_def float_zero float_units_def)
  ultimately show ?thesis
    unfolding fuzzyCompare_def by (auto simp: fle_positive_zero) (simp add: fle_def)
qed

lemma fuzzyCompare_zero_eq:
  assumes "valid_float x"
  shows "fuzzyCompare x (float_of_int 0) \<longleftrightarrow> feq x (float_of_int 0)"
proof (cases x)
  case (Finite s m e)
  show ?thesis
  proof (cases "m = 0")
    case True
    then show ?thesis
      by (simp add: Finite fuzzyCompare_def fsub_def float_zero float_100000 round_dyadic_def
          std_min_def fle_def float_units_def)
  next
    case False
    then have "0 < m" using assms by (simp add: Finite valid_float_def)
    then show ?thesis
      using fuzzyCompare_nonzero [of m s e] by (simp add: Finite float_zero float_units_def)
  qed
next
  case (Infinity s)
  then show ?thesis
    by (simp add: fuzzyCompare_def fsub_def float_zero float_100000 std_min_def fle_def)
next
  case NaN
  then show ?thesis
    by (simp add: fuzzyCompare_def fsub_def float_zero fle_def)
qed

lemma round_units_exact:
  assumes u: "0 < u" and dv: "2 ^ nat (bitlen u - 24) dvd u" and top: "bitlen u \<le> 277"
  shows "\<exists>m e. round_dyadic s u (- 149) = Finite s m e \<and> float_units False m e = u"
proof -
  define n where "n = bitlen u"
  have u0: "u \<noteq> 0" using u by simp
  have hi: "u < 2 ^ nat n" using bitlen_bounds [OF u] by (simp add: n_def)
  show ?thesis
  proof (cases "n \<le> 24")
    case True
    then have re: "round_exponent u (- 149) = - 149"
      by (simp add: round_exponent_def n_def)
    have "round_dyadic s u (- 149) = Finite s (u * 2 ^ nat (- 149 - (- 149))) (- 149)"
      using round_dyadic_exact_branch [OF u0, of "- 149" s] by (simp add: re)
    then show ?thesis by (simp add: float_units_def)
  next
    case False
    define sh where "sh = nat (n - 24)"
    have re: "round_exponent u (- 149) = n - 173"
      using False by (simp add: round_exponent_def n_def)
    have nb: "\<not> round_exponent u (- 149) \<le> - 149" using False by (simp add: re)
    have sh: "sh = nat (round_exponent u (- 149) - (- 149))"
      by (simp add: re sh_def)
    define q where "q = u div 2 ^ sh"
    define r where "r = u mod 2 ^ sh"
    define q' where "q' = (if 2 ^ (sh - 1) < r \<or> (r = 2 ^ (sh - 1) \<and> odd q) then q + 1 else q)"
    have r0: "r = 0" using dv by (simp add: r_def sh_def n_def)
    have "q' = q" by (simp add: q'_def r0)
    have "nat n = sh + 24" using False by (simp add: sh_def)
    then have "u < 2 ^ 24 * 2 ^ sh" using hi by (simp add: power_add mult.commute)
    moreover have uq: "q * 2 ^ sh = u"
      using dv by (simp add: q_def sh_def n_def)
    ultimately have "q * 2 ^ sh < 2 ^ 24 * 2 ^ sh" by simp
    then have q24: "q < 2 ^ 24"
      by (simp only: mult_less_cancel_right) simp
    have "round_dyadic s u (- 149) =
           (if 104 < (if q' = 2 ^ 24 then round_exponent u (- 149) + 1 else round_exponent u (- 149))
            then Infinity s
            else Finite s (if q' = 2 ^ 24 then 2 ^ 23 else q')
                   (if q' = 2 ^ 24 then round_exponent u (- 149) + 1 else round_exponent u (- 149)))"
      by (rule round_dyadic_round_branch [OF u0 nb sh q_def r_def q'_def])
    then have "round_dyadic s u (- 149) = Finite s q (n - 173)"
      using q24 top \<open>q' = q\<close> by (simp add: re n_def)
    moreover have "float_units False q (n - 173) = u"
      using False uq by (simp add: float_units_def sh_def)
    ultimately show ?thesis by blast
  qed
qed


lemma float_two: "float_of_int 2 = Finite False 8388608 (- 22)"
  by code_simp

lemma units_one: "float_units False 8388608 (- 23) = 2 ^ 149"
  by (simp add: float_units_def)

lemma units_two: "float_units False 8388608 (- 22) = 2 ^ 150"
  by (simp add: float_units_def)

lemma hue_minus_one:
  assumes v: "valid_float h" and ge: "fge h (float_of_int 1)" and lt: "flt h (float_of_int 2)"
  shows "\<exists>m e. fsub h (float_of_int 1) = Finite False m e
           \<and> 0 \<le> float_units False m e \<and> float_units False m e < 2 ^ 149"
proof (cases h)
  case (Finite s m e)
  define U where "U = float_units s m e"
  have mb: "0 \<le> m" "m < 2 ^ 24"
    using v by (simp_all add: Finite valid_float_def)
  have Ub: "2 ^ 149 \<le> U" "U < 2 ^ 150"
    using ge lt by (auto simp: Finite fge_def fle_def float_one float_two units_one units_two U_def)
  have s: "\<not> s"
  proof
    assume s
    then have "U \<le> 0" using mb by (simp add: U_def float_units_def mult_le_0_iff)
    then show False using Ub by simp
  qed
  define k where "k = nat (e + 149)"
  have U: "U = m * 2 ^ k" using s by (simp add: U_def float_units_def k_def)
  have k: "126 \<le> k"
  proof (rule ccontr)
    assume "\<not> 126 \<le> k"
    then have "k \<le> 125" by simp
    then have "(2 :: int) ^ k \<le> 2 ^ 125" by (intro power_increasing) simp_all
    moreover have "m \<le> 2 ^ 24 - 1" using mb by simp
    ultimately have "m * 2 ^ k \<le> (2 ^ 24 - 1) * 2 ^ 125"
      using mb by (intro mult_mono) simp_all
    then show False using Ub U by simp
  qed
  define u where "u = U - 2 ^ 149"
  have ub: "0 \<le> u" "u < 2 ^ 149" using Ub by (simp_all add: u_def)
  have "(2 :: int) ^ 126 dvd 2 ^ k" using k by (rule le_imp_power_dvd)
  then have "2 ^ 126 dvd U" unfolding U by (rule dvd_mult)
  moreover have "(2 :: int) ^ 126 dvd 2 ^ 149" by (rule le_imp_power_dvd) simp
  ultimately have d126: "2 ^ 126 dvd u" unfolding u_def by (rule dvd_diff)
  have sub: "fsub h (float_of_int 1)
       = (if u = 0 then Finite False 0 (- 149) else round_dyadic (u < 0) \<bar>u\<bar> (- 149))"
    using s by (simp add: Finite fsub_def float_one Let_def u_def U_def float_units_def)
  show ?thesis
  proof (cases "u = 0")
    case True
    then show ?thesis by (simp add: sub float_units_def)
  next
    case False
    then have up: "0 < u" using ub by simp
    have "bitlen u \<le> 149" using ub by (simp add: bitlen_le_iff_power)
    then have "nat (bitlen u - 24) \<le> 126" "bitlen u \<le> 277" by simp_all
    then have "(2 :: int) ^ nat (bitlen u - 24) dvd 2 ^ 126" by (intro le_imp_power_dvd)
    then have "2 ^ nat (bitlen u - 24) dvd u" using d126 by (rule dvd_trans)
    then obtain m' e' where "round_dyadic False u (- 149) = Finite False m' e'"
        "float_units False m' e' = u"
      using round_units_exact [OF up _ \<open>bitlen u \<le> 277\<close>, of False] by blast
    then show ?thesis using up ub False by (simp add: sub)
  qed
next
  case (Infinity s)
  then show ?thesis using ge lt by (simp add: fge_def fle_def float_one float_two)
next
  case NaN
  then show ?thesis using lt by simp
qed

lemma hue_correction_in_range:
  assumes "0 \<le> float_units False m e" and "float_units False m e < 2 ^ 149"
  shows "hsb_hue_correction (Finite False m e) = Finite False m e"
  using assms
  by (simp add: hsb_hue_correction_def float_zero float_one fge_def fle_def units_one
      float_units_zero)

lemma convert_hsb_cong:
  assumes "hsb_hue_correction (HsbColor.H c) = hsb_hue_correction (HsbColor.H c')"
    and "HsbColor.S c = HsbColor.S c'" and "HsbColor.B c = HsbColor.B c'"
  shows "convertToRgbColor_Hsb c = convertToRgbColor_Hsb c'"
  unfolding convertToRgbColor_Hsb_def hsb_sector_color_def assms ..

lemma round_units_lower:
  assumes u: "0 < u" and j: "2 ^ j \<le> u"
  shows "(\<exists>m e. round_dyadic s u (- 149) = Finite s m e \<and> 2 ^ j \<le> float_units False m e)
         \<or> round_dyadic s u (- 149) = Infinity s"
proof -
  define n where "n = bitlen u"
  have u0: "u \<noteq> 0" using u by simp
  have n1: "1 \<le> n" using bitlen_pos [OF u] by (simp add: n_def)
  have lo: "2 ^ nat (n - 1) \<le> u" and hi: "u < 2 ^ nat n"
    using bitlen_bounds [OF u] by (simp_all add: n_def)
  have "(2 :: int) ^ j < 2 ^ nat n" using j hi by linarith
  then have "j < nat n" by (simp add: power_strict_increasing_iff)
  then have jn: "j \<le> nat (n - 1)" using n1 by linarith
  then have pj: "(2 :: int) ^ j \<le> 2 ^ nat (n - 1)" by (intro power_increasing) simp_all
  show ?thesis
  proof (cases "n \<le> 24")
    case True
    then have re: "round_exponent u (- 149) = - 149"
      by (simp add: round_exponent_def n_def)
    have "round_dyadic s u (- 149) = Finite s (u * 2 ^ nat (- 149 - (- 149))) (- 149)"
      using round_dyadic_exact_branch [OF u0, of "- 149" s] by (simp add: re)
    then show ?thesis using j by (simp add: float_units_def)
  next
    case False
    define sh where "sh = nat (n - 24)"
    have re: "round_exponent u (- 149) = n - 173"
      using False by (simp add: round_exponent_def n_def)
    have nb: "\<not> round_exponent u (- 149) \<le> - 149" using False by (simp add: re)
    have sh: "sh = nat (round_exponent u (- 149) - (- 149))"
      by (simp add: re sh_def)
    define q where "q = u div 2 ^ sh"
    define r where "r = u mod 2 ^ sh"
    define q' where "q' = (if 2 ^ (sh - 1) < r \<or> (r = 2 ^ (sh - 1) \<and> odd q) then q + 1 else q)"
    define e'' where "e'' = (if q' = 2 ^ 24 then n - 173 + 1 else n - 173)"
    define m'' where "m'' = (if q' = 2 ^ 24 then 2 ^ 23 else q')"
    have nsh: "nat (n - 1) = 23 + sh" using False by (simp add: sh_def)
    have "(2 ^ 23 * 2 ^ sh) div 2 ^ sh \<le> u div 2 ^ sh"
      using lo by (intro zdiv_mono1) (simp_all add: nsh power_add)
    then have q23: "2 ^ 23 \<le> q" by (simp add: q_def)
    then have q'23: "2 ^ 23 \<le> q'" by (simp add: q'_def)
    have rd: "round_dyadic s u (- 149) = (if 104 < e'' then Infinity s else Finite s m'' e'')"
      unfolding e''_def m''_def re [symmetric]
      by (rule round_dyadic_round_branch [OF u0 nb sh q_def r_def q'_def])
    have "2 ^ nat (n - 1) \<le> float_units False m'' e''"
    proof (cases "q' = 2 ^ 24")
      case True
      then have "float_units False m'' e'' = 2 ^ 23 * 2 ^ nat (n - 23)"
        by (simp add: float_units_def m''_def e''_def)
      moreover have "nat (n - 23) = Suc sh" using False by (simp add: sh_def)
      ultimately show ?thesis by (simp add: nsh power_add)
    next
      case F: False
      then have "float_units False m'' e'' = q' * 2 ^ sh"
        using False by (simp add: float_units_def m''_def e''_def sh_def)
      moreover have "2 ^ 23 * 2 ^ sh \<le> q' * 2 ^ sh"
        using q'23 by (intro mult_right_mono) simp_all
      ultimately show ?thesis by (simp add: nsh power_add)
    qed
    then have "2 ^ j \<le> float_units False m'' e''" using pj by linarith
    then show ?thesis using rd by auto
  qed
qed


lemma float_minus_one: "float_of_int (- 1) = Finite True 8388608 (- 23)"
  by code_simp

lemma hue_two_or_more:
  assumes v: "valid_float h" and ge: "fge h (float_of_int 2)"
  shows "hsb_hue_correction h = fsub h (float_of_int 1)
         \<and> fge (fsub h (float_of_int 1)) (float_of_int 1)"
proof (cases h)
  case (Finite s m e)
  define U where "U = float_units s m e"
  have mb: "0 \<le> m" using v by (simp add: Finite valid_float_def)
  have Ub: "2 ^ 150 \<le> U"
    using ge by (auto simp: Finite fge_def fle_def float_two units_two U_def)
  have s: "\<not> s"
  proof
    assume s
    then have "U \<le> 0" using mb by (simp add: U_def float_units_def mult_le_0_iff)
    then show False using Ub by simp
  qed
  define u where "u = U - 2 ^ 149"
  have ub: "2 ^ 149 \<le> u" "0 < u" using Ub by (simp_all add: u_def)
  have sub: "fsub h (float_of_int 1) = round_dyadic False u (- 149)"
    using s ub by (simp add: Finite fsub_def float_one Let_def u_def U_def float_units_def)
  have c: "hsb_hue_correction h = fsub h (float_of_int 1)"
    using Ub s by (simp add: Finite hsb_hue_correction_def float_zero float_one fge_def fle_def
        units_one float_units_zero U_def)
  consider m' e' where "round_dyadic False u (- 149) = Finite False m' e'"
      "2 ^ 149 \<le> float_units False m' e'"
    | "round_dyadic False u (- 149) = Infinity False"
    using round_units_lower [OF ub(2) ub(1), of False] by blast
  then have "fge (round_dyadic False u (- 149)) (float_of_int 1)"
  proof cases
    case 1
    then show ?thesis by (auto simp: fge_def fle_def float_one units_one)
  next
    case 2
    then show ?thesis by (simp add: fge_def fle_def float_one)
  qed
  then show ?thesis using c by (simp only: sub)
next
  case (Infinity s)
  then show ?thesis using ge
    by (simp add: fge_def fle_def float_one float_two float_zero hsb_hue_correction_def fsub_def)
next
  case NaN
  then show ?thesis using ge by (simp add: fge_def fle_def float_two)
qed

lemma hue_below_minus_one:
  assumes lt: "flt h (float_of_int (- 1))"
  shows "hsb_hue_correction h = fadd h (float_of_int 1)
         \<and> flt (fadd h (float_of_int 1)) (float_of_int 0)"
proof (cases h)
  case (Finite s m e)
  define U where "U = float_units s m e"
  have Ub: "U < - (2 ^ 149)"
    using lt by (simp add: Finite float_minus_one U_def float_units_def)
  define u where "u = U + 2 ^ 149"
  have ub: "u < 0" "0 < \<bar>u\<bar>" "u \<noteq> 0" using Ub by (simp_all add: u_def)
  have "float_units s m e + float_units False 8388608 (- 23) = u"
    by (simp only: u_def U_def units_one)
  then have "fadd h (float_of_int 1)
      = (if u = 0 then Finite (s \<and> False) 0 (- 149) else round_dyadic (u < 0) \<bar>u\<bar> (- 149))"
    by (simp only: Finite float_one fadd.simps Let_def)
  then have add: "fadd h (float_of_int 1) = round_dyadic True \<bar>u\<bar> (- 149)"
    using ub by simp
  have c: "hsb_hue_correction h = fadd h (float_of_int 1)"
    using Ub by (simp add: Finite hsb_hue_correction_def float_zero float_units_zero flip: U_def)
  have "- 149 < - 149 + bitlen \<bar>u\<bar>" using bitlen_pos [OF ub(2)] by simp
  then consider q e' where "round_dyadic True \<bar>u\<bar> (- 149) = Finite True q e'" "0 < q"
    | "round_dyadic True \<bar>u\<bar> (- 149) = Infinity True"
    using round_dyadic_positive [OF ub(2), of "- 149" True] by blast
  then have "flt (round_dyadic True \<bar>u\<bar> (- 149)) (float_of_int 0)"
  proof cases
    case 1
    then show ?thesis
      by (simp add: float_zero float_units_def mult_less_0_iff)
  next
    case 2
    then show ?thesis by (simp add: float_zero)
  qed
  then show ?thesis using c by (simp only: add)
next
  case (Infinity s)
  then show ?thesis using lt
    by (simp add: float_minus_one float_zero float_one hsb_hue_correction_def)
next
  case NaN
  then show ?thesis using lt by simp
qed

lemma hue_minus_one_to_zero:
  assumes lt: "flt h (float_of_int 0)" and ge: "fge h (float_of_int (- 1))"
    and below: "flt (fadd h (float_of_int 1)) (float_of_int 1)"
  shows "\<exists>m e. fadd h (float_of_int 1) = Finite False m e
           \<and> 0 \<le> float_units False m e \<and> float_units False m e < 2 ^ 149"
proof (cases h)
  case (Finite s m e)
  define U where "U = float_units s m e"
  have Ub: "- (2 ^ 149) \<le> U"
    using ge by (auto simp: Finite fge_def fle_def float_minus_one U_def float_units_def)
  define u where "u = U + 2 ^ 149"
  have ub: "0 \<le> u" using Ub by (simp add: u_def)
  have "float_units s m e + float_units False 8388608 (- 23) = u"
    by (simp only: u_def U_def units_one)
  then have add: "fadd h (float_of_int 1)
      = (if u = 0 then Finite (s \<and> False) 0 (- 149) else round_dyadic (u < 0) \<bar>u\<bar> (- 149))"
    by (simp only: Finite float_one fadd.simps Let_def)
  show ?thesis
  proof (cases "u = 0")
    case True
    then show ?thesis by (simp add: add float_units_zero)
  next
    case False
    then have up: "0 < u" using ub by simp
    then have add': "fadd h (float_of_int 1) = round_dyadic False u (- 149)"
      by (simp add: add)
    have "- 149 < - 149 + bitlen u" using bitlen_pos [OF up] by simp
    then consider q e' where "round_dyadic False u (- 149) = Finite False q e'" "0 < q"
      | "round_dyadic False u (- 149) = Infinity False"
      using round_dyadic_positive [OF up, of "- 149" False] by blast
    then show ?thesis
    proof cases
      case 1
      have "0 \<le> float_units False q e'"
        using float_units_positive [OF 1(2), of e'] by simp
      moreover have "float_units False q e' < 2 ^ 149"
        using below unfolding add' 1(1) by (simp add: float_one units_one)
      ultimately show ?thesis unfolding add' 1(1) by blast
    next
      case 2
      then show ?thesis using below unfolding add' by (simp add: float_one)
    qed
  qed
next
  case (Infinity s)
  then show ?thesis using lt ge
    by (simp add: fge_def fle_def float_zero float_minus_one)
next
  case NaN
  then show ?thesis using lt by simp
qed

text \<open>The arithmetic stays within the binary32 values.\<close>

lemma int_div_less:
  assumes "0 < b" and "a < c * b"
  shows "a div b < (c :: int)"
proof (rule ccontr)
  assume "\<not> a div b < c"
  then have "c * b \<le> a div b * b"
    using assms(1) by (intro mult_right_mono) simp_all
  also have "\<dots> \<le> a"
    using assms(1) by (metis div_mult_mod_eq le_add_same_cancel1 pos_mod_sign)
  finally show False using assms(2) by simp
qed

lemma valid_round_dyadic:
  assumes "0 \<le> m"
  shows "valid_float (round_dyadic s m e)"
proof (cases "m = 0")
  case True
  then show ?thesis by (simp add: round_dyadic_def valid_float_def)
next
  case m0: False
  then have m: "0 < m" using assms by simp
  define n where "n = bitlen m"
  define e' where "e' = round_exponent m e"
  have n1: "1 \<le> n" using bitlen_pos [OF m] by (simp add: n_def)
  have lo: "2 ^ nat (n - 1) \<le> m" and hi: "m < 2 ^ nat n"
    using bitlen_bounds [OF m] by (simp_all add: n_def)
  have e'lo: "- 149 \<le> e'" and e'n: "e + n - 24 \<le> e'"
    by (simp_all add: e'_def round_exponent_def n_def)
  have norm: "e' = e + n - 24" if "e' \<noteq> - 149"
    using that by (auto simp: e'_def round_exponent_def n_def max_def split: if_splits)
  show ?thesis
  proof (cases "e' \<le> e")
    case True
    define M where "M = m * 2 ^ nat (e - e')"
    have rd: "round_dyadic s m e = (if 104 < e' then Infinity s else Finite s M e')"
      unfolding e'_def M_def by (rule round_dyadic_exact_branch [OF m0 True [unfolded e'_def]])
    have "nat n + nat (e - e') \<le> 24" using e'n True n1 by simp
    then have "(2 :: int) ^ (nat n + nat (e - e')) \<le> 2 ^ 24"
      by (intro power_increasing) simp_all
    moreover have "M < 2 ^ nat n * 2 ^ nat (e - e')"
      unfolding M_def using hi by (intro mult_strict_right_mono) simp_all
    ultimately have M24: "M < 2 ^ 24" by (simp add: power_add)
    have M0: "0 \<le> M" using m by (simp add: M_def)
    have "2 ^ 23 \<le> M" if "e' \<noteq> - 149"
    proof -
      have "e - e' = 24 - n" "n \<le> 24" using norm [OF that] True by simp_all
      then have "nat (n - 1) + nat (e - e') = 23" using n1 by simp
      then have "(2 :: int) ^ 23 = 2 ^ nat (n - 1) * 2 ^ nat (e - e')"
        by (simp flip: power_add)
      also have "\<dots> \<le> M"
        unfolding M_def using lo by (intro mult_right_mono) simp_all
      finally show ?thesis .
    qed
    then show ?thesis using M24 M0 e'lo by (auto simp: rd valid_float_def)
  next
    case False
    define sh where "sh = nat (e' - e)"
    define q where "q = m div 2 ^ sh"
    define r where "r = m mod 2 ^ sh"
    define q' where "q' = (if 2 ^ (sh - 1) < r \<or> (r = 2 ^ (sh - 1) \<and> odd q) then q + 1 else q)"
    define e'' where "e'' = (if q' = 2 ^ 24 then e' + 1 else e')"
    define m'' where "m'' = (if q' = 2 ^ 24 then 2 ^ 23 else q')"
    have rd: "round_dyadic s m e = (if 104 < e'' then Infinity s else Finite s m'' e'')"
      unfolding e''_def m''_def e'_def
      by (rule round_dyadic_round_branch [OF m0 False [unfolded e'_def] sh_def [unfolded e'_def] q_def r_def q'_def])
    have "nat n \<le> 24 + sh" using e'n False by (simp add: sh_def)
    then have "(2 :: int) ^ nat n \<le> 2 ^ (24 + sh)" by (intro power_increasing) simp_all
    then have "m < 2 ^ 24 * 2 ^ sh" using hi by (simp add: power_add)
    then have "m div 2 ^ sh < 2 ^ 24"
      by (intro int_div_less) simp_all
    then have q24: "q < 2 ^ 24" by (simp add: q_def)
    have q0: "0 \<le> q" using m by (simp add: q_def pos_imp_zdiv_nonneg_iff)
    have q'b: "0 \<le> q'" "q' \<le> 2 ^ 24" "q \<le> q'" using q24 q0 by (simp_all add: q'_def)
    have "2 ^ 23 \<le> q" if "e' \<noteq> - 149"
    proof -
      have "nat (n - 1) = 23 + sh" using norm [OF that] False by (simp add: sh_def)
      then have "(2 ^ 23 * 2 ^ sh) div 2 ^ sh \<le> m div 2 ^ sh"
        using lo by (intro zdiv_mono1) (simp_all add: power_add)
      then show ?thesis by (simp add: q_def)
    qed
    then have "2 ^ 23 \<le> q' \<or> e' = - 149" using q'b by auto
    then show ?thesis using q'b e'lo
      by (auto simp: rd valid_float_def m''_def e''_def)
  qed
qed


lemma valid_float_of_int: "valid_float (float_of_int k)"
  by (simp add: float_of_int_def valid_round_dyadic)

lemma valid_fneg: "valid_float x \<Longrightarrow> valid_float (fneg x)"
  by (cases x) (simp_all add: valid_float_def)

lemma valid_fabs: "valid_float x \<Longrightarrow> valid_float (fabs x)"
  by (cases x) (simp_all add: valid_float_def)

lemma valid_fadd: "valid_float (fadd x y)"
proof (cases x; cases y)
  fix s m e t n f
  assume "x = Finite s m e" "y = Finite t n f"
  then show ?thesis
    by (simp add: Let_def valid_round_dyadic) (simp add: valid_float_def)
qed (simp_all add: valid_float_def)

lemma valid_fsub: "valid_float (fsub x y)"
  by (simp add: fsub_def valid_fadd)

lemma valid_fmul:
  assumes "valid_float x" and "valid_float y"
  shows "valid_float (fmul x y)"
proof (cases x; cases y)
  fix s m e t n f
  assume xy: "x = Finite s m e" "y = Finite t n f"
  then have "0 \<le> m * n" using assms by (simp add: valid_float_def)
  then show ?thesis by (simp add: xy valid_round_dyadic)
qed (simp_all add: valid_float_def)

lemma valid_fdiv:
  assumes "valid_float x" and "valid_float y"
  shows "valid_float (fdiv x y)"
proof (cases x; cases y)
  fix s m e t n f
  assume xy: "x = Finite s m e" "y = Finite t n f"
  have mn: "0 \<le> m" "0 \<le> n" using assms by (simp_all add: xy valid_float_def)
  show ?thesis
  proof (cases "n = 0")
    case True
    then show ?thesis by (simp add: xy valid_float_def)
  next
    case False
    define k where "k = nat (bitlen n) + 24"
    have "0 \<le> (m * 2 ^ k) div n"
      using mn False by (simp add: pos_imp_zdiv_nonneg_iff)
    then have "0 \<le> 2 * ((m * 2 ^ k) div n) + (if (m * 2 ^ k) mod n = 0 then 0 else 1)"
      by simp
    then show ?thesis
      using False by (simp add: xy Let_def valid_round_dyadic flip: k_def)
  qed
qed (simp_all add: valid_float_def)

section \<open>Claims\<close>

text \<open>
  C1 (as stated: \<^verbatim>\<open>c.Dim(255)\<close> is within 1 LSB of \<open>c\<close> but some channel value \<open>v\<close> has
  \<^verbatim>\<open>_elementDim(v,255) != v\<close>). The code has no such value: the scale factor at ratio 255 is
  \<open>256 / 256\<close>, and \<^verbatim>\<open>_elementDim(v,255) = v\<close> for every \<open>v\<close>.
\<close>

theorem C1_counterexample: "\<not> (\<exists>v :: u8. elementDim v 255 \<noteq> v)"
  by (simp add: elementDim_full)

text \<open>
  C1, amended: for every RgbColor \<open>c\<close>, \<^verbatim>\<open>c.Dim(255)\<close> equals \<open>c\<close> exactly, channel by
  channel, as the header's comment on \<^verbatim>\<open>Dim\<close> says (255 returns the original colour).
\<close>

theorem C1_Dim_255_identity:
  "RgbColor_Dim c 255 = c \<and> elementDim v 255 = v"
  by (simp add: RgbColor_Dim_def RgbColor_rgb_def elementDim_full)

text \<open>
  C2: for every RgbColor \<open>c\<close> and ratio \<open>r\<close>, each channel of \<^verbatim>\<open>c.Dim(r)\<close> is
  \<open>(value * (r + 1)) >> 8\<close>; the product is at most 65280, so the 16-bit multiply does not
  wrap and gives the same channel; no floating point is involved; and \<^verbatim>\<open>c.Dim(0)\<close> is
  \<^verbatim>\<open>RgbColor(0,0,0)\<close>.
\<close>

theorem C2_Dim_formula:
  "uint (RgbColor.R (RgbColor_Dim c r)) = (uint (RgbColor.R c) * (uint r + 1)) div 2 ^ 8
   \<and> uint (RgbColor.G (RgbColor_Dim c r)) = (uint (RgbColor.G c) * (uint r + 1)) div 2 ^ 8
   \<and> uint (RgbColor.B (RgbColor_Dim c r)) = (uint (RgbColor.B c) * (uint r + 1)) div 2 ^ 8
   \<and> uint (v :: u8) * (uint r + 1) < 2 ^ 16
   \<and> elementDim v r = ucast (drop_bit 8 ((ucast v :: u16) * (ucast r + 1)))
   \<and> RgbColor_Dim c 0 = RgbColor_rgb 0 0 0"
proof -
  have "uint v * (uint r + 1) < 2 ^ 16"
    using dim_product_range [of v r] by simp
  then show ?thesis
    by (simp add: RgbColor_Dim_def RgbColor_rgb_def uint_elementDim elementDim_zero
        elementDim_16bit)
qed

text \<open>
  C3 (as stated: \<^verbatim>\<open>element\<close> is the exact quotient, it is clamped when it exceeds 255, and
  the subtraction never underflows). At \<open>value = 255\<close>, \<open>ratio = 0\<close> the quotient is 65536,
  which exceeds 255; stored in the 16-bit \<^verbatim>\<open>element\<close> it becomes 0, the test
  \<^verbatim>\<open>element > 255\<close> fails, and \<^verbatim>\<open>element -= 1\<close> runs on 0.
\<close>

theorem C3_counterexample:
  "brighten_quotient 255 0 = 65536 \<and> 255 < brighten_quotient 255 0
   \<and> brighten_element 255 0 = 0 \<and> \<not> 255 < uint (brighten_element 255 0)
   \<and> uint (brighten_element 255 0) - 1 < 0"
  using brighten_at_top by simp

text \<open>
  C3, amended: for every RgbColor \<open>c\<close> and ratio \<open>r\<close>, each channel of \<^verbatim>\<open>c.Brighten(r)\<close>
  equals the formula evaluated on unbounded integers (quotient, clamp to 255, otherwise
  minus 1), and that quotient is at least 1. For every input but \<open>value = 255\<close> with
  \<open>ratio = 0\<close> the 16-bit \<^verbatim>\<open>element\<close> holds the exact quotient and the decrement does not
  underflow; at that one input the wrapped decrement 65535 narrows to 255, the clamped
  value.
\<close>

theorem C3_Brighten_formula:
  "uint (elementBrighten v r) = brighten_spec (uint v) (uint r)
   \<and> 1 \<le> ((uint v + 1) * 2 ^ 8) div (uint r + 1)
   \<and> (\<not> (v = 255 \<and> r = 0) \<longrightarrow>
        uint (brighten_element v r) = ((uint v + 1) * 2 ^ 8) div (uint r + 1)
        \<and> 0 \<le> uint (brighten_element v r) - 1)
   \<and> uint (RgbColor.R (RgbColor_Brighten c r)) = brighten_spec (uint (RgbColor.R c)) (uint r)
   \<and> uint (RgbColor.G (RgbColor_Brighten c r)) = brighten_spec (uint (RgbColor.G c)) (uint r)
   \<and> uint (RgbColor.B (RgbColor_Brighten c r)) = brighten_spec (uint (RgbColor.B c)) (uint r)"
proof -
  have spec: "uint (elementBrighten x r) = brighten_spec (uint x) (uint r)" for x
    by (simp add: uint_elementBrighten brighten_spec_def brighten_quotient_eq)
  have q: "1 \<le> ((uint v + 1) * 2 ^ 8) div (uint r + 1)"
    using brighten_quotient_range [of v r] by (simp add: brighten_quotient_eq)
  have e: "uint (brighten_element v r) = ((uint v + 1) * 2 ^ 8) div (uint r + 1)
        \<and> 0 \<le> uint (brighten_element v r) - 1" if "\<not> (v = 255 \<and> r = 0)"
    using that q by (auto simp: uint_brighten_element brighten_quotient_eq)
  show ?thesis
    using q e by (simp add: spec RgbColor_Brighten_def RgbColor_rgb_def)
qed

theorem C3_Brighten_formula_witness:
  "\<not> ((200 :: u8) = 255 \<and> (127 :: u8) = 0) \<and> uint (brighten_element 200 127) = 402
   \<and> elementBrighten 200 127 = 255
   \<and> RgbColor_Brighten (RgbColor_rgb 10 20 200) 127 = RgbColor_rgb 21 41 255"
  using C3_Brighten_formula [of 200 127 "RgbColor_rgb 10 20 200"]
  by (simp add: brighten_spec_def RgbColor_rgb_def u8_eq_iff RgbColor_Brighten_def RgbColor.equality)

text \<open>
  C4: \<^verbatim>\<open>RgbwColor::Lighten\<close> branches on \<^verbatim>\<open>IsColorLess()\<close>. A colourless colour gets
  \<open>delta\<close> added to W with saturation at 255 and keeps R, G, B at 0; any other colour gets
  \<open>delta\<close> added to R, G and B with saturation and keeps W. So
  \<^verbatim>\<open>RgbwColor(0,0,0,10).Lighten(5)\<close> is \<open>(0,0,0,15)\<close> and
  \<^verbatim>\<open>RgbwColor(10,10,10,0).Lighten(5)\<close> is \<open>(15,15,15,0)\<close>.
\<close>

theorem C4_Lighten:
  "RgbwColor_Lighten c d =
     (if IsColorLess c
      then \<lparr>RgbwColor.R = 0, G = 0, B = 0, W = saturating_add (W c) d\<rparr>
      else \<lparr>RgbwColor.R = saturating_add (RgbwColor.R c) d,
            G = saturating_add (RgbwColor.G c) d,
            B = saturating_add (RgbwColor.B c) d, W = W c\<rparr>)
   \<and> uint (saturating_add x d) = min 255 (uint x + uint d)
   \<and> RgbwColor_Lighten (RgbwColor_rgbw 0 0 0 10) 5 = RgbwColor_rgbw 0 0 0 15
   \<and> RgbwColor_Lighten (RgbwColor_rgbw 10 10 10 0) 5 = RgbwColor_rgbw 15 15 15 0"
proof -
  have "RgbwColor_Lighten c d =
     (if IsColorLess c
      then \<lparr>RgbwColor.R = 0, G = 0, B = 0, W = saturating_add (W c) d\<rparr>
      else \<lparr>RgbwColor.R = saturating_add (RgbwColor.R c) d,
            G = saturating_add (RgbwColor.G c) d,
            B = saturating_add (RgbwColor.B c) d, W = W c\<rparr>)"
    by (cases c) (simp add: Lighten_saturating IsColorLess_def)
  moreover have "RgbwColor_Lighten (RgbwColor_rgbw 0 0 0 10) 5 = RgbwColor_rgbw 0 0 0 15"
    by (simp add: Lighten_saturating IsColorLess_def RgbwColor_rgbw_def saturating_add_examples)
  moreover have "RgbwColor_Lighten (RgbwColor_rgbw 10 10 10 0) 5 = RgbwColor_rgbw 15 15 15 0"
    by (simp add: Lighten_saturating IsColorLess_def RgbwColor_rgbw_def saturating_add_examples)
  ultimately show ?thesis
    by (simp add: uint_saturating)
qed

text \<open>
  C5 (the achromatic check of the HSB to RGB conversion is tolerance-based and classifies
  some saturation \<open>S \<noteq> 0\<close> as achromatic). What the code does: the check is
  \<^verbatim>\<open>fuzzyCompare(color.S, 0.0f)\<close>, a relative-tolerance comparison whose tolerance
  \<open>min(|S|, |0|)\<close> is 0 there, so for every float \<open>S\<close> it holds exactly when
  \<^verbatim>\<open>S == 0.0f\<close>, and the conversion takes the achromatic return for \<open>S == 0\<close> only.
  It fails for the smallest positive float and for \<open>1e-7f\<close>
  (\<open>14073749 * 2 ^ - 47\<close>, where \<open>|S| * 100000\<close> is about 0.01 and the tolerance is 0);
  at \<open>H = 0\<close>, \<open>S = 1e-7f\<close>, \<open>B = 1\<close> the sector computation returns \<open>(1, 0, 0)\<close>,
  where the achromatic return gives \<open>uint8_t(1.0f)\<close> in each channel.
\<close>

theorem C5_fuzzyCompare_zero_degenerate:
  "(valid_float (HsbColor.S color) \<longrightarrow>
      (fuzzyCompare (HsbColor.S color) (float_of_int 0) \<longleftrightarrow> feq (HsbColor.S color) (float_of_int 0))
      \<and> convertToRgbColor_Hsb color
          = (if feq (HsbColor.S color) (float_of_int 0)
             then RgbColor_of_floats (HsbColor.B color) (HsbColor.B color) (HsbColor.B color)
             else hsb_sector_color color))
   \<and> \<not> fuzzyCompare (Finite False 1 (- 149)) (float_of_int 0)
   \<and> fdiv (float_of_int 1) (float_of_int 10000000) = Finite False 14073749 (- 47)
   \<and> fmul (fabs (fsub (Finite False 14073749 (- 47)) (float_of_int 0))) (float_of_int 100000)
       = Finite False 10737418 (- 30)
   \<and> std_min (fabs (Finite False 14073749 (- 47))) (fabs (float_of_int 0)) = float_of_int 0
   \<and> \<not> fuzzyCompare (Finite False 14073749 (- 47)) (float_of_int 0)
   \<and> convertToRgbColor_Hsb
        \<lparr>HsbColor.H = float_of_int 0, S = Finite False 14073749 (- 47), B = float_of_int 1\<rparr>
       = Some (RgbColor_rgb 1 0 0)
   \<and> RgbColor_of_floats (float_of_int 1) (float_of_int 1) (float_of_int 1)
       = Some (RgbColor_rgb 1 1 1)"
proof -
  have "\<not> fuzzyCompare (Finite False 1 (- 149)) (float_of_int 0)"
    "fdiv (float_of_int 1) (float_of_int 10000000) = Finite False 14073749 (- 47)"
    "fmul (fabs (fsub (Finite False 14073749 (- 47)) (float_of_int 0))) (float_of_int 100000)
       = Finite False 10737418 (- 30)"
    "std_min (fabs (Finite False 14073749 (- 47))) (fabs (float_of_int 0)) = float_of_int 0"
    "\<not> fuzzyCompare (Finite False 14073749 (- 47)) (float_of_int 0)"
    "convertToRgbColor_Hsb
        \<lparr>HsbColor.H = float_of_int 0, S = Finite False 14073749 (- 47), B = float_of_int 1\<rparr>
       = Some (RgbColor_rgb 1 0 0)"
    "RgbColor_of_floats (float_of_int 1) (float_of_int 1) (float_of_int 1)
       = Some (RgbColor_rgb 1 1 1)"
    by code_simp+
  moreover have "valid_float (HsbColor.S color) \<longrightarrow>
      (fuzzyCompare (HsbColor.S color) (float_of_int 0) \<longleftrightarrow> feq (HsbColor.S color) (float_of_int 0))
      \<and> convertToRgbColor_Hsb color
          = (if feq (HsbColor.S color) (float_of_int 0)
             then RgbColor_of_floats (HsbColor.B color) (HsbColor.B color) (HsbColor.B color)
             else hsb_sector_color color)"
    by (simp add: fuzzyCompare_zero_eq convertToRgbColor_Hsb_def)
  ultimately show ?thesis by blast
qed

theorem C5_fuzzyCompare_zero_degenerate_witness:
  "valid_float (Finite False 14073749 (- 47))
   \<and> \<not> feq (Finite False 14073749 (- 47)) (float_of_int 0)
   \<and> \<not> fuzzyCompare (Finite False 14073749 (- 47)) (float_of_int 0)
   \<and> convertToRgbColor_Hsb
        \<lparr>HsbColor.H = float_of_int 0, S = Finite False 14073749 (- 47), B = float_of_int 1\<rparr>
       = hsb_sector_color
           \<lparr>HsbColor.H = float_of_int 0, S = Finite False 14073749 (- 47), B = float_of_int 1\<rparr>"
proof -
  have v: "valid_float (Finite False 14073749 (- 47))"
    by (simp add: valid_float_def)
  have n: "\<not> feq (Finite False 14073749 (- 47)) (float_of_int 0)"
    by (simp add: float_zero float_units_def)
  show ?thesis
    using C5_fuzzyCompare_zero_degenerate [of "\<lparr>HsbColor.H = float_of_int 0, S = Finite False 14073749 (- 47), B = float_of_int 1\<rparr>"]
      v n
    by simp
qed

text \<open>
  C6 (as stated: every hue, negative or greater than 1, is wrapped into \<open>[0, 1)\<close> before
  the sector index is selected, so hues that differ by an integer give the same colour).
  With saturation and brightness 1: the hue 2.5 is corrected once, to 1.5, the
  \<^verbatim>\<open>switch\<close> takes its default branch and the colour is \<open>(1, 0, 1)\<close>, while the hue 0.5
  (sector 3) gives \<open>(0, 1, 1)\<close>; the hue \<open>- 1.5\<close> is corrected to \<open>- 0.5\<close>, still negative,
  and gives \<open>(1, 0, 1)\<close> as well; the hue \<open>- 2 ^ - 30\<close> is corrected to exactly 1.0, which
  is not below 1, the sector index is 6 and the colour is \<open>(1, 0, 1)\<close>.
\<close>

theorem C6_counterexample:
  "hsb_hue_correction (round_dyadic False 5 (- 1)) = round_dyadic False 3 (- 1)
   \<and> fge (round_dyadic False 3 (- 1)) (float_of_int 1)
   \<and> convertToRgbColor_Hsb
        \<lparr>HsbColor.H = round_dyadic False 5 (- 1), S = float_of_int 1, B = float_of_int 1\<rparr>
       = Some (RgbColor_rgb 1 0 1)
   \<and> convertToRgbColor_Hsb
        \<lparr>HsbColor.H = round_dyadic False 1 (- 1), S = float_of_int 1, B = float_of_int 1\<rparr>
       = Some (RgbColor_rgb 0 1 1)
   \<and> hsb_hue_correction (round_dyadic True 3 (- 1)) = round_dyadic True 1 (- 1)
   \<and> flt (round_dyadic True 1 (- 1)) (float_of_int 0)
   \<and> convertToRgbColor_Hsb
        \<lparr>HsbColor.H = round_dyadic True 3 (- 1), S = float_of_int 1, B = float_of_int 1\<rparr>
       = Some (RgbColor_rgb 1 0 1)
   \<and> hsb_hue_correction (round_dyadic True 1 (- 30)) = float_of_int 1
   \<and> fge (float_of_int 1) (float_of_int 1)
   \<and> float_to_int (fmul (hsb_hue_correction (round_dyadic True 1 (- 30))) (float_of_int 6))
       = Some 6
   \<and> convertToRgbColor_Hsb
        \<lparr>HsbColor.H = round_dyadic True 1 (- 30), S = float_of_int 1, B = float_of_int 1\<rparr>
       = Some (RgbColor_rgb 1 0 1)"
  by code_simp

text \<open>
  C6, amended: the hue is corrected once before the sector index is selected: it becomes
  \<open>H + 1.0f\<close> when \<open>H < 0\<close>, \<open>H - 1.0f\<close> when \<open>H \<ge> 1\<close>, and stays \<open>H\<close> otherwise.
  For \<open>1 \<le> H < 2\<close> the corrected hue \<open>H - 1\<close> lies in \<open>[0, 1)\<close>, and \<open>H\<close> and \<open>H - 1\<close>
  produce the same RgbColor. For \<open>- 1 \<le> H < 0\<close> with \<open>H + 1.0f\<close> below 1 the corrected hue
  lies in \<open>[0, 1)\<close>, and \<open>H\<close> and \<open>H + 1.0f\<close> produce the same RgbColor. A hue of 2 or
  more is still at least 1 after the correction, and a hue below \<open>- 1\<close> is still negative.
\<close>

theorem C6_single_correction:
  "hsb_hue_correction h0 =
     (if flt h0 (float_of_int 0) then fadd h0 (float_of_int 1)
      else if fge h0 (float_of_int 1) then fsub h0 (float_of_int 1)
      else h0)
   \<and> (valid_float h \<and> fge h (float_of_int 1) \<and> flt h (float_of_int 2) \<longrightarrow>
      hsb_hue_correction h = fsub h (float_of_int 1)
      \<and> \<not> flt (fsub h (float_of_int 1)) (float_of_int 0)
      \<and> flt (fsub h (float_of_int 1)) (float_of_int 1)
      \<and> hsb_hue_correction (fsub h (float_of_int 1)) = fsub h (float_of_int 1)
      \<and> convertToRgbColor_Hsb \<lparr>HsbColor.H = h, S = s, B = b\<rparr>
          = convertToRgbColor_Hsb \<lparr>HsbColor.H = fsub h (float_of_int 1), S = s, B = b\<rparr>)
   \<and> (flt h4 (float_of_int 0) \<and> fge h4 (float_of_int (- 1))
        \<and> flt (fadd h4 (float_of_int 1)) (float_of_int 1) \<longrightarrow>
      hsb_hue_correction h4 = fadd h4 (float_of_int 1)
      \<and> \<not> flt (fadd h4 (float_of_int 1)) (float_of_int 0)
      \<and> hsb_hue_correction (fadd h4 (float_of_int 1)) = fadd h4 (float_of_int 1)
      \<and> convertToRgbColor_Hsb \<lparr>HsbColor.H = h4, S = s, B = b\<rparr>
          = convertToRgbColor_Hsb \<lparr>HsbColor.H = fadd h4 (float_of_int 1), S = s, B = b\<rparr>)
   \<and> (valid_float h2 \<and> fge h2 (float_of_int 2) \<longrightarrow>
      hsb_hue_correction h2 = fsub h2 (float_of_int 1)
      \<and> fge (hsb_hue_correction h2) (float_of_int 1))
   \<and> (flt h3 (float_of_int (- 1)) \<longrightarrow>
      hsb_hue_correction h3 = fadd h3 (float_of_int 1)
      \<and> flt (hsb_hue_correction h3) (float_of_int 0))"
proof (intro conjI impI; (elim conjE)?)
  show "hsb_hue_correction h0 =
     (if flt h0 (float_of_int 0) then fadd h0 (float_of_int 1)
      else if fge h0 (float_of_int 1) then fsub h0 (float_of_int 1)
      else h0)"
    by (simp add: hsb_hue_correction_def)
next
  assume a: "valid_float h" "fge h (float_of_int 1)" "flt h (float_of_int 2)"
  obtain m e where h1: "fsub h (float_of_int 1) = Finite False m e"
      and u: "0 \<le> float_units False m e" "float_units False m e < 2 ^ 149"
    using hue_minus_one [OF a] by blast
  have pos: "\<not> flt h (float_of_int 0)"
  proof (cases h)
    case (Finite s' m' e')
    then show ?thesis using a(2)
      by (auto simp: fge_def fle_def float_one float_zero units_one float_units_zero)
  next
    case (Infinity s')
    then show ?thesis using a(2) by (simp add: fge_def fle_def float_one float_zero)
  next
    case NaN
    then show ?thesis by simp
  qed
  show c1: "hsb_hue_correction h = fsub h (float_of_int 1)"
    using pos a(2) by (simp add: hsb_hue_correction_def)
  show c2: "hsb_hue_correction (fsub h (float_of_int 1)) = fsub h (float_of_int 1)"
    using hue_correction_in_range [OF u] by (simp add: h1)
  show "\<not> flt (fsub h (float_of_int 1)) (float_of_int 0)"
    using u unfolding h1 by (simp add: float_zero float_units_zero)
  show "flt (fsub h (float_of_int 1)) (float_of_int 1)"
    using u unfolding h1 by (simp add: float_one units_one)
  show "convertToRgbColor_Hsb \<lparr>HsbColor.H = h, S = s, B = b\<rparr>
        = convertToRgbColor_Hsb \<lparr>HsbColor.H = fsub h (float_of_int 1), S = s, B = b\<rparr>"
    by (rule convert_hsb_cong) (simp_all add: c1 c2)
next
  assume a: "flt h4 (float_of_int 0)" "fge h4 (float_of_int (- 1))"
    "flt (fadd h4 (float_of_int 1)) (float_of_int 1)"
  obtain m e where h1: "fadd h4 (float_of_int 1) = Finite False m e"
      and u: "0 \<le> float_units False m e" "float_units False m e < 2 ^ 149"
    using hue_minus_one_to_zero [OF a] by blast
  show c1: "hsb_hue_correction h4 = fadd h4 (float_of_int 1)"
    using a(1) by (simp add: hsb_hue_correction_def)
  show c2: "hsb_hue_correction (fadd h4 (float_of_int 1)) = fadd h4 (float_of_int 1)"
    using hue_correction_in_range [OF u] by (simp add: h1)
  show "\<not> flt (fadd h4 (float_of_int 1)) (float_of_int 0)"
    using u unfolding h1 by (simp add: float_zero float_units_zero)
  show "convertToRgbColor_Hsb \<lparr>HsbColor.H = h4, S = s, B = b\<rparr>
        = convertToRgbColor_Hsb \<lparr>HsbColor.H = fadd h4 (float_of_int 1), S = s, B = b\<rparr>"
    by (rule convert_hsb_cong) (simp_all add: c1 c2)
next
  assume a: "valid_float h2" "fge h2 (float_of_int 2)"
  show "hsb_hue_correction h2 = fsub h2 (float_of_int 1)"
    using hue_two_or_more [OF a] by blast
  then show "fge (hsb_hue_correction h2) (float_of_int 1)"
    using hue_two_or_more [OF a] by simp
next
  assume a: "flt h3 (float_of_int (- 1))"
  show "hsb_hue_correction h3 = fadd h3 (float_of_int 1)"
    using hue_below_minus_one [OF a] by blast
  then show "flt (hsb_hue_correction h3) (float_of_int 0)"
    using hue_below_minus_one [OF a] by simp
qed

theorem C6_single_correction_witness:
  "valid_float (round_dyadic False 3 (- 1))
   \<and> fge (round_dyadic False 3 (- 1)) (float_of_int 1)
   \<and> flt (round_dyadic False 3 (- 1)) (float_of_int 2)
   \<and> fsub (round_dyadic False 3 (- 1)) (float_of_int 1) = round_dyadic False 1 (- 1)
   \<and> convertToRgbColor_Hsb
        \<lparr>HsbColor.H = round_dyadic False 3 (- 1), S = float_of_int 1, B = float_of_int 1\<rparr>
       = Some (RgbColor_rgb 0 1 1)
   \<and> flt (round_dyadic True 1 (- 2)) (float_of_int 0)
   \<and> fge (round_dyadic True 1 (- 2)) (float_of_int (- 1))
   \<and> fadd (round_dyadic True 1 (- 2)) (float_of_int 1) = round_dyadic False 3 (- 2)
   \<and> flt (round_dyadic False 3 (- 2)) (float_of_int 1)
   \<and> convertToRgbColor_Hsb
        \<lparr>HsbColor.H = round_dyadic True 1 (- 2), S = float_of_int 1, B = float_of_int 1\<rparr>
       = Some (RgbColor_rgb 0 0 1)
   \<and> valid_float (round_dyadic False 5 (- 1))
   \<and> fge (round_dyadic False 5 (- 1)) (float_of_int 2)
   \<and> hsb_hue_correction (round_dyadic False 5 (- 1)) = round_dyadic False 3 (- 1)
   \<and> fge (round_dyadic False 3 (- 1)) (float_of_int 1)
   \<and> valid_float (round_dyadic True 3 (- 1))
   \<and> flt (round_dyadic True 3 (- 1)) (float_of_int (- 1))
   \<and> hsb_hue_correction (round_dyadic True 3 (- 1)) = round_dyadic True 1 (- 1)
   \<and> flt (round_dyadic True 1 (- 1)) (float_of_int 0)"
proof -
  have h: "round_dyadic False 3 (- 1) = Finite False 12582912 (- 23)"
    and h2: "round_dyadic False 5 (- 1) = Finite False 10485760 (- 22)"
    and h3: "round_dyadic True 3 (- 1) = Finite True 12582912 (- 23)"
    and h4: "round_dyadic True 1 (- 2) = Finite True 8388608 (- 25)"
    and h5: "round_dyadic False 3 (- 2) = Finite False 12582912 (- 24)"
    by code_simp+
  have a: "valid_float (round_dyadic False 3 (- 1))"
    "valid_float (round_dyadic False 5 (- 1))" "valid_float (round_dyadic True 3 (- 1))"
    by (simp_all add: h h2 h3 valid_float_def)
  have b: "fge (round_dyadic False 3 (- 1)) (float_of_int 1)"
    "fge (round_dyadic False 5 (- 1)) (float_of_int 2)"
    "fge (round_dyadic True 1 (- 2)) (float_of_int (- 1))"
    by (simp_all add: h h2 h4 float_one float_two float_minus_one fge_def fle_def float_units_def)
  have c: "flt (round_dyadic False 3 (- 1)) (float_of_int 2)"
    "flt (round_dyadic True 3 (- 1)) (float_of_int (- 1))"
    "flt (round_dyadic True 1 (- 2)) (float_of_int 0)"
    "flt (round_dyadic False 3 (- 2)) (float_of_int 1)"
    by (simp_all add: h h3 h4 h5 float_zero float_one float_two float_minus_one float_units_def)
  have d: "fsub (round_dyadic False 3 (- 1)) (float_of_int 1) = round_dyadic False 1 (- 1)"
    "fsub (round_dyadic False 5 (- 1)) (float_of_int 1) = round_dyadic False 3 (- 1)"
    "fadd (round_dyadic True 3 (- 1)) (float_of_int 1) = round_dyadic True 1 (- 1)"
    "fadd (round_dyadic True 1 (- 2)) (float_of_int 1) = round_dyadic False 3 (- 2)"
    by code_simp+
  have e: "convertToRgbColor_Hsb
        \<lparr>HsbColor.H = round_dyadic False 1 (- 1), S = float_of_int 1, B = float_of_int 1\<rparr>
       = Some (RgbColor_rgb 0 1 1)"
    "convertToRgbColor_Hsb
        \<lparr>HsbColor.H = round_dyadic False 3 (- 2), S = float_of_int 1, B = float_of_int 1\<rparr>
       = Some (RgbColor_rgb 0 0 1)"
    by code_simp+
  show ?thesis
    using C6_single_correction [of "float_of_int 0" "round_dyadic False 3 (- 1)" "float_of_int 1"
        "float_of_int 1" "round_dyadic True 1 (- 2)" "round_dyadic False 5 (- 1)"
        "round_dyadic True 3 (- 1)", THEN conjunct2]
      a b c d e
    by auto
qed

text \<open>
  C7: for \<open>A = RgbColor(10,20,30)\<close> and \<open>B = RgbColor(200,100,50)\<close>,
  \<^verbatim>\<open>LinearBlend(A, B, 0.0)\<close> is \<open>A\<close> and \<^verbatim>\<open>LinearBlend(A, B, 1.0)\<close> is \<open>B\<close>, field by
  field; every conversion to \<^verbatim>\<open>uint8_t\<close> is defined there.
\<close>

theorem C7_LinearBlend_endpoints:
  "RgbColor_LinearBlend (RgbColor_rgb 10 20 30) (RgbColor_rgb 200 100 50) (float_of_int 0)
     = Some (RgbColor_rgb 10 20 30)
   \<and> RgbColor_LinearBlend (RgbColor_rgb 10 20 30) (RgbColor_rgb 200 100 50) (float_of_int 1)
     = Some (RgbColor_rgb 200 100 50)"
  by code_simp

text \<open>
  C8: \<^verbatim>\<open>RgbwColor::CalculateBrightness\<close> returns the maximum of W and the colour
  brightness, which is the truncated average \<open>(R + G + B) div 3\<close> that
  \<^verbatim>\<open>RgbColor::CalculateBrightness\<close> computes; the sum stays below \<open>2 ^ 16\<close>.
\<close>

theorem C8_CalculateBrightness:
  "RgbwColor_CalculateBrightness c
     = max (RgbColor_CalculateBrightness (RgbColor_rgb (RgbwColor.R c) (RgbwColor.G c) (RgbwColor.B c)))
           (W c)
   \<and> uint (RgbColor_CalculateBrightness x)
       = (uint (RgbColor.R x) + uint (RgbColor.G x) + uint (RgbColor.B x)) div 3
   \<and> uint (RgbColor.R x) + uint (RgbColor.G x) + uint (RgbColor.B x) < 2 ^ 16"
proof -
  have "uint (RgbColor.R x) + uint (RgbColor.G x) + uint (RgbColor.B x) < 2 ^ 16"
    using channel_sum_range [of "RgbColor.R x" "RgbColor.G x" "RgbColor.B x"] by simp
  moreover have "uint (RgbColor_CalculateBrightness x)
       = (uint (RgbColor.R x) + uint (RgbColor.G x) + uint (RgbColor.B x)) div 3"
    by (simp only: RgbColor_CalculateBrightness_def uint_average)
  moreover have "RgbwColor_CalculateBrightness c
     = max (RgbColor_CalculateBrightness (RgbColor_rgb (RgbwColor.R c) (RgbwColor.G c) (RgbwColor.B c)))
           (W c)"
  proof -
    define colorB :: u8 where "colorB = word_of_int ((uint (ucast (RgbwColor.R c) :: u16)
                     + uint (ucast (RgbwColor.G c) :: u16)
                     + uint (ucast (RgbwColor.B c) :: u16)) sdiv 3)"
    have "(if uint colorB < uint (W c) then W c else colorB) = max colorB (W c)"
      by (auto simp: max_def word_le_def u8_eq_iff)
    then show ?thesis
      by (simp add: RgbwColor_CalculateBrightness_def RgbColor_CalculateBrightness_def
          RgbColor_rgb_def Let_def flip: colorB_def)
  qed
  ultimately show ?thesis by blast
qed

text \<open>
  C9: \<^verbatim>\<open>HslColor(RgbColor(0,0,0))\<close> has \<open>H = 0, S = 0, L = 0\<close>;
  \<^verbatim>\<open>HslColor(RgbColor(255,255,255))\<close> has \<open>H = 0, S = 0, L = 1.0\<close>; and whenever
  \<^verbatim>\<open>max == min\<close> over the normalized channels, \<open>H\<close> and \<open>S\<close> are 0 and \<open>L\<close> is
  \<^verbatim>\<open>(max + min) / 2.0f\<close>.
\<close>

theorem C9_achromatic:
  "convertToHslColor (RgbColor_rgb 0 0 0)
     = \<lparr>HslColor.H = float_of_int 0, S = float_of_int 0, L = float_of_int 0\<rparr>
   \<and> convertToHslColor (RgbColor_rgb 255 255 255)
     = \<lparr>HslColor.H = float_of_int 0, S = float_of_int 0, L = float_of_int 1\<rparr>
   \<and> (let r = normalized_channel (RgbColor.R c);
           g = normalized_channel (RgbColor.G c);
           b = normalized_channel (RgbColor.B c)
       in feq (channel_max r g b) (channel_min r g b) \<longrightarrow>
            convertToHslColor c
              = \<lparr>HslColor.H = float_of_int 0, S = float_of_int 0,
                 L = fdiv (fadd (channel_max r g b) (channel_min r g b)) (float_of_int 2)\<rparr>)"
proof -
  have "convertToHslColor (RgbColor_rgb 0 0 0)
     = \<lparr>HslColor.H = float_of_int 0, S = float_of_int 0, L = float_of_int 0\<rparr>"
    by code_simp
  moreover have "convertToHslColor (RgbColor_rgb 255 255 255)
     = \<lparr>HslColor.H = float_of_int 0, S = float_of_int 0, L = float_of_int 1\<rparr>"
    by code_simp
  ultimately show ?thesis
    by (simp add: convertToHslColor_def Let_def)
qed

theorem C9_achromatic_witness:
  "feq (channel_max (normalized_channel 128) (normalized_channel 128) (normalized_channel 128))
       (channel_min (normalized_channel 128) (normalized_channel 128) (normalized_channel 128))
   \<and> convertToHslColor (RgbColor_rgb 128 128 128)
       = \<lparr>HslColor.H = float_of_int 0, S = float_of_int 0, L = Finite False 8421505 (- 24)\<rparr>"
proof -
  have n: "normalized_channel 128 = Finite False 8421505 (- 24)"
    by code_simp
  have m: "channel_max (Finite False 8421505 (- 24)) (Finite False 8421505 (- 24)) (Finite False 8421505 (- 24)) = Finite False 8421505 (- 24)"
     "channel_min (Finite False 8421505 (- 24)) (Finite False 8421505 (- 24)) (Finite False 8421505 (- 24)) = Finite False 8421505 (- 24)"
    by (simp_all add: channel_max_def channel_min_def fgt_def)
  have l: "fdiv (fadd (Finite False 8421505 (- 24)) (Finite False 8421505 (- 24))) (float_of_int 2) = Finite False 8421505 (- 24)"
    by code_simp
  show ?thesis
    using C9_achromatic [of "RgbColor_rgb 128 128 128"]
    by (simp add: RgbColor_rgb_def n m l Let_def float_units_def del: fadd.simps fdiv.simps)
qed

text \<open>
  C10: \<^verbatim>\<open>RgbwColor(brightness)\<close> is \<open>(0, 0, 0, brightness)\<close>: only the white channel is
  filled. \<^verbatim>\<open>RgbColor(brightness)\<close> is the grey \<open>(brightness, brightness, brightness)\<close>.
\<close>

theorem C10_brightness_constructors:
  "RgbwColor.R (RgbwColor_brightness b) = 0 \<and> RgbwColor.G (RgbwColor_brightness b) = 0
   \<and> RgbwColor.B (RgbwColor_brightness b) = 0 \<and> W (RgbwColor_brightness b) = b
   \<and> RgbwColor_brightness b = RgbwColor_rgbw 0 0 0 b
   \<and> RgbColor_brightness b = RgbColor_rgb b b b"
  by (simp add: RgbwColor_brightness_def RgbwColor_rgbw_def RgbColor_brightness_def
      RgbColor_rgb_def)

end
